theory Spec2Isabelle
  imports Complex_Main "HOL-Library.Multiset"
begin

section \<open>Guess the Number: round engine and leaderboard of \<open>App.tsx\<close>\<close>

text \<open>
  The component \<open>App\<close> keeps its state in \<open>useState\<close> cells and changes it in event
  handlers. The handlers are modelled as functions from the state record to the new state
  record. What a handler draws from the outside (the random target, the clock, the fresh
  identifier, the stored string, the collation of the locale) is an argument of its model.

  JavaScript numbers are binary64 values. Counters and bounds are modelled as \<open>nat\<close> and
  \<open>int\<close>, which is exact below \<open>2 ^ 53\<close>; the conversion of the text of the input box to
  a number is modelled with its rounding, since \<open>parseGuess\<close> decides on its result.
  Strings are lists of characters with codes below 256.
\<close>

subsection \<open>Strings: \<open>String.prototype.trim\<close> and decimal printing\<close>

definition isWhiteSpace :: "char \<Rightarrow> bool" where
  \<comment> \<open>WhiteSpace and LineTerminator code units below 256: TAB, LF, VT, FF, CR, SP, NBSP.\<close>
  "isWhiteSpace c = (of_char c \<in> {9::nat, 10, 11, 12, 13, 32, 160})"

definition trim :: "string \<Rightarrow> string" where
  "trim s = rev (dropWhile isWhiteSpace (rev (dropWhile isWhiteSpace s)))"

definition isDigit :: "char \<Rightarrow> bool" where
  \<comment> \<open>The class \<open>\d\<close>: 0 to 9.\<close>
  "isDigit c = (48 \<le> (of_char c :: nat) \<and> (of_char c :: nat) \<le> 57)"

definition digitChar :: "nat \<Rightarrow> char" where
  \<comment> \<open>The digit of a value below ten.\<close>
  "digitChar d = ''0123456789'' ! d"

fun natToString :: "nat \<Rightarrow> string" where
  "natToString n = (if n < 10 then [digitChar n] else natToString (n div 10) @ [digitChar (n mod 10)])"

declare natToString.simps [simp del]

definition numToString :: "int \<Rightarrow> string" where
  \<comment> \<open>A template literal \<open>${n}\<close> of an integer \<open>n\<close>: plain decimal digits (for magnitudes
      below \<open>10 ^ 21\<close>, which all numbers printed by the handlers are).\<close>
  "numToString n = (if n < 0 then CHR ''-'' # natToString (nat (- n)) else natToString (nat n))"

subsection \<open>\<open>Number(string)\<close>: the StringToNumber conversion\<close>

text \<open>
  A number is not-a-number, an infinity, or finite; a finite one is held as the exact
  rational value of the binary64 it is (the sign of zero is not kept: no comparison of
  the program sees it).
\<close>

datatype JSNumber = NaN | PosInfinity | NegInfinity | Finite rat

definition pow2 :: "int \<Rightarrow> rat" where
  "pow2 k = (if 0 \<le> k then 2 ^ nat k else 1 / 2 ^ nat (- k))"

definition pow10 :: "int \<Rightarrow> rat" where
  "pow10 k = (if 0 \<le> k then 10 ^ nat k else 1 / 10 ^ nat (- k))"

function bitLength :: "int \<Rightarrow> int" where
  "bitLength n = (if n \<le> 0 then 0 else 1 + bitLength (n div 2))"
  by pat_completeness auto
termination
  by (relation "measure nat") auto

declare bitLength.simps [simp del]

definition floorLog2 :: "rat \<Rightarrow> int" where
  \<comment> \<open>For \<open>0 < q\<close>: the \<open>e\<close> with \<open>2 ^ e \<le> q < 2 ^ (e + 1)\<close>.\<close>
  "floorLog2 q =
     (let (a, b) = quotient_of q;
          d = bitLength a - bitLength b
      in if pow2 d \<le> q then d else d - 1)"

definition roundHalfEven :: "rat \<Rightarrow> int" where
  "roundHalfEven x =
     (let f = \<lfloor>x\<rfloor>; r = x - of_int f
      in if r < 1 / 2 then f
         else if 1 / 2 < r then f + 1
         else if even f then f else f + 1)"

definition nearestDouble :: "rat \<Rightarrow> rat" where
  \<comment> \<open>For \<open>0 < q\<close>: the multiple of the spacing at \<open>q\<close> (53 significant bits, least
      exponent -1022) nearest to \<open>q\<close>, ties to the even significand.\<close>
  "nearestDouble q =
     (let p = max (floorLog2 q) (- 1022) - 52
      in of_int (roundHalfEven (q / pow2 p)) * pow2 p)"

definition roundMV :: "rat \<Rightarrow> JSNumber" where
  \<comment> \<open>The Number value for a mathematical value: rounding to \<open>2 ^ 1024\<close> gives an infinity.\<close>
  "roundMV q =
     (if q = 0 then Finite 0
      else if 0 < q then
        (let v = nearestDouble q in if 2 ^ 1024 \<le> v then PosInfinity else Finite v)
      else
        (let v = nearestDouble (- q) in if 2 ^ 1024 \<le> v then NegInfinity else Finite (- v)))"

definition negate :: "JSNumber \<Rightarrow> JSNumber" where
  "negate x = (case x of NaN \<Rightarrow> NaN | PosInfinity \<Rightarrow> NegInfinity
               | NegInfinity \<Rightarrow> PosInfinity | Finite q \<Rightarrow> Finite (- q))"

definition digitValue :: "char \<Rightarrow> int" where
  \<comment> \<open>The value of a digit of any radix up to 16; 16 for every other character.\<close>
  "digitValue c =
     (let n = (of_char c :: int)
      in if 48 \<le> n \<and> n \<le> 57 then n - 48
         else if 97 \<le> n \<and> n \<le> 102 then n - 87
         else if 65 \<le> n \<and> n \<le> 70 then n - 55
         else 16)"

definition isRadixDigit :: "int \<Rightarrow> char \<Rightarrow> bool" where
  "isRadixDigit radix c = (digitValue c < radix)"

definition digitsValue :: "int \<Rightarrow> string \<Rightarrow> int" where
  "digitsValue radix ds = foldl (\<lambda>acc c. radix * acc + digitValue c) 0 ds"

definition nonDecimalInteger :: "int \<Rightarrow> string \<Rightarrow> JSNumber" where
  \<comment> \<open>What follows the prefix \<open>0x\<close>, \<open>0o\<close> or \<open>0b\<close>: one digit of the radix or more.\<close>
  "nonDecimalInteger radix ds =
     (if ds \<noteq> [] \<and> list_all (isRadixDigit radix) ds
      then roundMV (of_int (digitsValue radix ds)) else NaN)"

definition signedInteger :: "string \<Rightarrow> int option" where
  \<comment> \<open>The SignedInteger of an ExponentPart.\<close>
  "signedInteger s =
     (let (neg, ds) = (case s of
                         c # r \<Rightarrow> if c = CHR ''-'' then (True, r)
                                  else if c = CHR ''+'' then (False, r) else (False, s)
                       | [] \<Rightarrow> (False, s))
      in if ds \<noteq> [] \<and> list_all isDigit ds
         then Some (if neg then - digitsValue 10 ds else digitsValue 10 ds)
         else None)"

definition exponentPart :: "string \<Rightarrow> int option" where
  \<comment> \<open>The rest of a decimal literal after its digits: nothing, or \<open>e\<close>/\<open>E\<close> and a
      SignedInteger.\<close>
  "exponentPart s =
     (case s of
        [] \<Rightarrow> Some 0
      | c # r \<Rightarrow> if c = CHR ''e'' \<or> c = CHR ''E'' then signedInteger r else None)"

definition unsignedDecimal :: "string \<Rightarrow> JSNumber" where
  \<comment> \<open>StrUnsignedDecimalLiteral: \<open>Infinity\<close>, \<open>D+ . D* E?\<close>, \<open>. D+ E?\<close> or \<open>D+ E?\<close>.\<close>
  "unsignedDecimal s =
     (if s = ''Infinity'' then PosInfinity
      else
        let ip = takeWhile isDigit s; r1 = dropWhile isDigit s;
            dot = (r1 \<noteq> [] \<and> hd r1 = CHR ''.'');
            fp = (if dot then takeWhile isDigit (tl r1) else []);
            r2 = (if dot then dropWhile isDigit (tl r1) else r1)
        in if ip = [] \<and> fp = [] then NaN
           else case exponentPart r2 of
                  None \<Rightarrow> NaN
                | Some ex \<Rightarrow>
                    roundMV (of_int (digitsValue 10 (ip @ fp)) * pow10 (ex - int (length fp))))"

definition decimalLiteral :: "string \<Rightarrow> JSNumber" where
  \<comment> \<open>StrDecimalLiteral: an optional sign and a StrUnsignedDecimalLiteral.\<close>
  "decimalLiteral s =
     (case s of
        [] \<Rightarrow> NaN
      | c # r \<Rightarrow> if c = CHR ''+'' then unsignedDecimal r
                 else if c = CHR ''-'' then negate (unsignedDecimal r)
                 else unsignedDecimal s)"

definition Number :: "string \<Rightarrow> JSNumber" where
  \<comment> \<open>\<open>Number(s)\<close>: white space around the literal is ignored, the empty literal is 0, a
      string that is no StringNumericLiteral is NaN.\<close>
  "Number s =
     (let t = trim s
      in if t = [] then Finite 0
         else if take 2 t = ''0x'' \<or> take 2 t = ''0X'' then nonDecimalInteger 16 (drop 2 t)
         else if take 2 t = ''0o'' \<or> take 2 t = ''0O'' then nonDecimalInteger 8 (drop 2 t)
         else if take 2 t = ''0b'' \<or> take 2 t = ''0B'' then nonDecimalInteger 2 (drop 2 t)
         else decimalLiteral t)"

definition Number_isFinite :: "JSNumber \<Rightarrow> bool" where
  "Number_isFinite x = (case x of Finite q \<Rightarrow> True | _ \<Rightarrow> False)"

definition Number_isInteger :: "JSNumber \<Rightarrow> bool" where
  "Number_isInteger x = (case x of Finite q \<Rightarrow> of_int \<lfloor>q\<rfloor> = q | _ \<Rightarrow> False)"

subsection \<open>\<open>parseGuess\<close>\<close>

definition parseGuess :: "string \<Rightarrow> int option" where
  \<comment> \<open>\<open>null\<close> is \<open>None\<close>; the number returned is finite and integral, and is held as the
      integer it is.\<close>
  "parseGuess text =
     (let trimmed = trim text
      in if trimmed = [] then None
         else let n = Number trimmed
              in if \<not> Number_isFinite n \<or> \<not> Number_isInteger n then None
                 else (case n of Finite q \<Rightarrow> Some \<lfloor>q\<rfloor> | _ \<Rightarrow> None))"

subsection \<open>Difficulties\<close>

datatype DifficultyKey = Easy | Medium | Hard

record DifficultyConfig =
  key :: DifficultyKey
  label :: string
  min_cfg :: int
  max_cfg :: int
  maxAttempts :: nat

definition DIFFICULTIES :: "DifficultyConfig list" where
  "DIFFICULTIES =
     [\<lparr>key = Easy, label = ''Easy'', min_cfg = 1, max_cfg = 20, maxAttempts = 6\<rparr>,
      \<lparr>key = Medium, label = ''Medium'', min_cfg = 1, max_cfg = 50, maxAttempts = 8\<rparr>,
      \<lparr>key = Hard, label = ''Hard'', min_cfg = 1, max_cfg = 100, maxAttempts = 10\<rparr>]"

definition findDifficulty :: "DifficultyKey \<Rightarrow> DifficultyConfig" where
  \<comment> \<open>\<open>DIFFICULTIES.find((d) => d.key === k) ?? DIFFICULTIES[0]\<close>\<close>
  "findDifficulty k =
     (case find (\<lambda>d. key d = k) DIFFICULTIES of Some d \<Rightarrow> d | None \<Rightarrow> DIFFICULTIES ! 0)"

subsection \<open>The state of the component\<close>

record LeaderboardEntry =
  id_e :: string
  playerName_e :: string
  difficulty_e :: DifficultyKey
  attempts_e :: nat
  rangeMax_e :: int
  dateISO_e :: string

record AppState =
  difficultyKey :: DifficultyKey
  target :: int
  attempts :: nat
  hint :: string
  guessText :: string
  gameOver :: bool
  leaderboard :: "LeaderboardEntry list"
  leaderboardOpen :: bool
  nameModalOpen :: bool
  playerName :: string
  pendingWinAttempts :: "nat option"

definition difficulty :: "AppState \<Rightarrow> DifficultyConfig" where
  \<comment> \<open>The memoised \<open>difficulty\<close> of the current \<open>difficultyKey\<close>.\<close>
  "difficulty st = findDifficulty (difficultyKey st)"

subsection \<open>The round engine\<close>

definition startNewGame :: "DifficultyKey \<Rightarrow> int \<Rightarrow> AppState \<Rightarrow> AppState" where
  \<comment> \<open>\<open>drawn\<close> is what \<open>randomIntInclusive(config.min, config.max)\<close> returned.\<close>
  "startNewGame nextDifficultyKey drawn st =
     (let config = findDifficulty nextDifficultyKey
      in st\<lparr>target := drawn,
            attempts := 0,
            guessText := [],
            gameOver := False,
            hint := ''Guess a number between '' @ numToString (min_cfg config) @ '' and ''
                    @ numToString (max_cfg config) @ ''.'',
            pendingWinAttempts := None,
            nameModalOpen := False\<rparr>)"

definition attemptLimitReached :: "AppState \<Rightarrow> nat \<Rightarrow> bool" where
  "attemptLimitReached st nextAttempts = (maxAttempts (difficulty st) \<le> nextAttempts)"

text \<open>
  \<open>handleSubmitGuess\<close> returns nothing. Its model returns the new state, and with it the
  name of the return path taken: the outcome. Dismissing the keyboard and focusing the
  input box change no state cell and are left out.
\<close>

datatype Outcome = AlreadyOver | InvalidInput | OutOfRange | Won nat | Lost int | Continue

definition handleSubmitGuess :: "AppState \<Rightarrow> Outcome \<times> AppState" where
  "handleSubmitGuess st =
     (if gameOver st then (AlreadyOver, st)
      else case parseGuess (guessText st) of
        None \<Rightarrow> (InvalidInput, st\<lparr>hint := ''Please enter a whole number.''\<rparr>)
      | Some guess \<Rightarrow>
          if guess < min_cfg (difficulty st) \<or> max_cfg (difficulty st) < guess
          then (OutOfRange,
                st\<lparr>hint := ''Your guess must be between '' @ numToString (min_cfg (difficulty st))
                            @ '' and '' @ numToString (max_cfg (difficulty st)) @ ''.''\<rparr>)
          else
            let nextAttempts = attempts st + 1;
                st1 = st\<lparr>attempts := nextAttempts\<rparr>
            in if guess = target st
               then (Won nextAttempts,
                     st1\<lparr>gameOver := True,
                         hint := ''Correct! You guessed it in '' @ numToString (int nextAttempts)
                                 @ '' attempt'' @ (if nextAttempts = 1 then [] else ''s'') @ ''.'',
                         pendingWinAttempts := Some nextAttempts,
                         nameModalOpen := True\<rparr>)
               else
                 let st2 = st1\<lparr>hint := (if guess < target st then ''Higher.'' else ''Lower.'')\<rparr>
                 in if attemptLimitReached st nextAttempts
                    then (Lost (target st),
                          st2\<lparr>gameOver := True,
                              hint := ''Game over. The number was '' @ numToString (target st)
                                      @ ''.''\<rparr>)
                    else (Continue, st2))"

definition onChangeText :: "string \<Rightarrow> AppState \<Rightarrow> AppState" where
  \<comment> \<open>The input box keeps the digits of what is typed: \<open>t.replace(/[^\d]/g, '')\<close>.\<close>
  "onChangeText t st = st\<lparr>guessText := filter isDigit t\<rparr>"

definition submitGuess :: "string \<Rightarrow> AppState \<Rightarrow> Outcome \<times> AppState" where
  \<comment> \<open>A guess submitted with \<open>rawInput\<close> as the text of the input box.\<close>
  "submitGuess rawInput st = handleSubmitGuess (st\<lparr>guessText := rawInput\<rparr>)"

fun submitAll :: "string list \<Rightarrow> AppState \<Rightarrow> AppState" where
  "submitAll [] st = st"
| "submitAll (r # rs) st = submitAll rs (snd (submitGuess r st))"

subsection \<open>The leaderboard\<close>

definition order_tbl :: "DifficultyKey \<Rightarrow> int" where
  \<comment> \<open>\<open>const order = { easy: 0, medium: 1, hard: 2 }\<close>\<close>
  "order_tbl d = (case d of Easy \<Rightarrow> 0 | Medium \<Rightarrow> 1 | Hard \<Rightarrow> 2)"

text \<open>
  \<open>String.prototype.localeCompare\<close> is the collation of the locale, which the program does
  not define: it is the argument \<open>localeCompare\<close> of the comparator and of what calls it.
  What is asked of it is asked where it is used, and only on timestamps of the shape that
  \<open>toISOString\<close> prints for the years 0 to 9999.
\<close>

definition isoTimestamp :: "string \<Rightarrow> bool" where
  \<comment> \<open>The shape \<open>YYYY-MM-DDTHH:mm:ss.sssZ\<close>; \<open>d\<close> in the pattern stands for a digit.\<close>
  "isoTimestamp s =
     list_all2 (\<lambda>p c. if p = CHR ''d'' then isDigit c else c = p)
       ''dddd-dd-ddTdd:dd:dd.dddZ'' s"

definition timeValue :: "string \<Rightarrow> int" where
  \<comment> \<open>The digits of a timestamp read as one number, the year first: of two timestamps of
      the shape the later has the larger number.\<close>
  "timeValue s = digitsValue 10 (filter isDigit s)"

definition collatesTimestamps :: "(string \<Rightarrow> string \<Rightarrow> int) \<Rightarrow> bool" where
  \<comment> \<open>On two timestamps of the shape the collation is negative when the first is the
      earlier, positive when the first is the later.\<close>
  "collatesTimestamps localeCompare =
     (\<forall>x y. isoTimestamp x \<and> isoTimestamp y \<longrightarrow>
        (localeCompare x y < 0 \<longleftrightarrow> timeValue x < timeValue y)
        \<and> (0 < localeCompare x y \<longleftrightarrow> timeValue y < timeValue x))"

definition compareEntries ::
  "(string \<Rightarrow> string \<Rightarrow> int) \<Rightarrow> LeaderboardEntry \<Rightarrow> LeaderboardEntry \<Rightarrow> int" where
  \<comment> \<open>The comparator passed to \<open>sort\<close> in \<open>sortLeaderboard\<close>.\<close>
  "compareEntries localeCompare a b =
     (if difficulty_e a \<noteq> difficulty_e b
      then order_tbl (difficulty_e a) - order_tbl (difficulty_e b)
      else if attempts_e a \<noteq> attempts_e b then int (attempts_e a) - int (attempts_e b)
      else localeCompare (dateISO_e b) (dateISO_e a))"

text \<open>
  \<open>Array.prototype.sort\<close> is stable, and with a consistent comparator its result is the one
  stable sorted arrangement of the array: the one insertion from the right builds.
\<close>

fun insert_by :: "('a \<Rightarrow> 'a \<Rightarrow> int) \<Rightarrow> 'a \<Rightarrow> 'a list \<Rightarrow> 'a list" where
  "insert_by cmp x [] = [x]"
| "insert_by cmp x (y # ys) = (if cmp x y \<le> 0 then x # y # ys else y # insert_by cmp x ys)"

definition Array_sort :: "('a \<Rightarrow> 'a \<Rightarrow> int) \<Rightarrow> 'a list \<Rightarrow> 'a list" where
  "Array_sort cmp xs = foldr (insert_by cmp) xs []"

definition sortLeaderboard ::
  "(string \<Rightarrow> string \<Rightarrow> int) \<Rightarrow> LeaderboardEntry list \<Rightarrow> LeaderboardEntry list" where
  "sortLeaderboard localeCompare entries = Array_sort (compareEntries localeCompare) entries"

datatype Effect =
    Alert string string
  | SetItem "LeaderboardEntry list"

definition handleSaveWin ::
  "(string \<Rightarrow> string \<Rightarrow> int) \<Rightarrow> string \<Rightarrow> string \<Rightarrow> AppState \<Rightarrow> Effect list \<times> AppState" where
  \<comment> \<open>\<open>newId\<close> is the identifier made from the clock and \<open>Math.random\<close>, \<open>nowISO\<close> is
      \<open>new Date().toISOString()\<close>. The effects are the alert shown and the array handed to
      \<open>persistLeaderboard\<close>, whose failure is swallowed.\<close>
  "handleSaveWin localeCompare newId nowISO st =
     (let name = trim (playerName st)
      in case pendingWinAttempts st of
           None \<Rightarrow> ([], st\<lparr>nameModalOpen := False\<rparr>)
         | Some winAttempts \<Rightarrow>
             if name = []
             then ([Alert ''Name required'' ''Please enter your name to save your score.''], st)
             else
               let entry = \<lparr>id_e = newId, playerName_e = name,
                            difficulty_e = key (difficulty st), attempts_e = winAttempts,
                            rangeMax_e = max_cfg (difficulty st), dateISO_e = nowISO\<rparr>;
                   next = take 50 (sortLeaderboard localeCompare (entry # leaderboard st))
               in ([SetItem next],
                   st\<lparr>leaderboard := next, nameModalOpen := False, playerName := [],
                      pendingWinAttempts := None, leaderboardOpen := True\<rparr>))"

subsection \<open>Loading the leaderboard at startup\<close>

text \<open>
  The effect reads a string from the storage, parses it as JSON and, when the parsed value
  is an array, makes it the leaderboard. The cast \<open>as LeaderboardEntry[]\<close> checks nothing,
  so the effect is modelled on JSON values. What \<open>AsyncStorage.getItem\<close> gave and what
  \<open>JSON.parse\<close> made of it are arguments.
\<close>

datatype JSONValue =
    JNull
  | JBool bool
  | JNum rat
  | JStr string
  | JArr "JSONValue list"
  | JObj "(string \<times> JSONValue) list"

datatype StorageRead = ReadFailed | ReadNull | ReadString string

definition Array_isArray :: "JSONValue \<Rightarrow> bool" where
  "Array_isArray v = (case v of JArr xs \<Rightarrow> True | _ \<Rightarrow> False)"

definition elements :: "JSONValue \<Rightarrow> JSONValue list" where
  \<comment> \<open>The elements of a value that is an array.\<close>
  "elements v = (case v of JArr xs \<Rightarrow> xs | _ \<Rightarrow> [])"

definition loadLeaderboard :: "StorageRead \<Rightarrow> JSONValue option \<Rightarrow> JSONValue list \<Rightarrow> JSONValue list" where
  \<comment> \<open>\<open>raw\<close>: the outcome of \<open>getItem\<close> (\<open>ReadFailed\<close> when its promise is rejected);
      \<open>parsed\<close>: the outcome of \<open>JSON.parse(raw)\<close> (\<open>None\<close> when it throws);
      \<open>current\<close>: the leaderboard before the effect. The result is the leaderboard after.\<close>
  "loadLeaderboard raw parsed current =
     (case raw of
        ReadFailed \<Rightarrow> current
      | ReadNull \<Rightarrow> current
      | ReadString r \<Rightarrow>
          if r = [] then current
          else (case parsed of
                  None \<Rightarrow> current
                | Some v \<Rightarrow> if Array_isArray v then elements v else current))"

definition initialLeaderboard :: "JSONValue list" where
  \<comment> \<open>\<open>useState<LeaderboardEntry[]>([])\<close>\<close>
  "initialLeaderboard = []"

definition initialState :: "int \<Rightarrow> AppState" where
  \<comment> \<open>The initial values of the \<open>useState\<close> cells; \<open>drawn\<close> is the first random target.\<close>
  "initialState drawn =
     \<lparr>difficultyKey = Easy, target = drawn, attempts = 0,
      hint = ''Pick a difficulty, then guess the number.'', guessText = [],
      gameOver = False, leaderboard = [], leaderboardOpen = False,
      nameModalOpen = False, playerName = [], pendingWinAttempts = None\<rparr>"

subsection \<open>The vocabulary of the specification\<close>

definition round_ok :: "AppState \<Rightarrow> bool" where
  \<comment> \<open>The invariant of a round: attempts are left exactly while the round is open.\<close>
  "round_ok st =
     (if gameOver st then attempts st \<le> maxAttempts (difficulty st)
      else attempts st < maxAttempts (difficulty st))"

definition spec_base10_integer :: "string \<Rightarrow> bool" where
  \<comment> \<open>The specification's non-empty base-10 integer representation: decimal digits, after
      an optional sign.\<close>
  "spec_base10_integer s =
     (case s of
        [] \<Rightarrow> False
      | c # r \<Rightarrow> if c = CHR ''-'' \<or> c = CHR ''+'' then r \<noteq> [] \<and> list_all isDigit r
                 else list_all isDigit s)"

definition spec_easier :: "DifficultyKey \<Rightarrow> DifficultyKey \<Rightarrow> bool" where
  \<comment> \<open>The specification's severity order: easy before medium before hard.\<close>
  "spec_easier d d' =
     ((d = Easy \<and> d' = Medium) \<or> (d = Easy \<and> d' = Hard) \<or> (d = Medium \<and> d' = Hard))"

definition spec_ranks_above :: "LeaderboardEntry \<Rightarrow> LeaderboardEntry \<Rightarrow> bool" where
  \<comment> \<open>The specification's ranking rule: the easier difficulty first; within a difficulty
      the fewer attempts first; within both the later timestamp first.\<close>
  "spec_ranks_above a b =
     (spec_easier (difficulty_e a) (difficulty_e b)
      \<or> (difficulty_e a = difficulty_e b
          \<and> (attempts_e a < attempts_e b
              \<or> (attempts_e a = attempts_e b
                  \<and> timeValue (dateISO_e b) < timeValue (dateISO_e a)))))"

definition spec_same_rank :: "LeaderboardEntry \<Rightarrow> LeaderboardEntry \<Rightarrow> bool" where
  "spec_same_rank a b =
     (difficulty_e a = difficulty_e b \<and> attempts_e a = attempts_e b
      \<and> timeValue (dateISO_e a) = timeValue (dateISO_e b))"

definition spec_ranks_at_or_above :: "LeaderboardEntry \<Rightarrow> LeaderboardEntry \<Rightarrow> bool" where
  "spec_ranks_at_or_above a b = (spec_ranks_above a b \<or> spec_same_rank a b)"

definition spec_entry_shape :: "JSONValue \<Rightarrow> bool" where
  \<comment> \<open>The persisted layout of one entry: an object with the six fields.\<close>
  "spec_entry_shape v =
     (case v of
        JObj fs \<Rightarrow>
          (case (map_of fs ''id'', map_of fs ''playerName'', map_of fs ''difficulty'',
                 map_of fs ''attempts'', map_of fs ''rangeMax'', map_of fs ''dateISO'') of
             (Some (JStr i), Some (JStr n), Some (JStr d), Some (JNum a), Some (JNum r), Some (JStr t)) \<Rightarrow>
               d \<in> {''easy'', ''medium'', ''hard''} \<and> of_int \<lfloor>a\<rfloor> = a \<and> 1 \<le> a \<and> of_int \<lfloor>r\<rfloor> = r
           | _ \<Rightarrow> False)
      | _ \<Rightarrow> False)"

definition spec_compatible_shape :: "JSONValue \<Rightarrow> bool" where
  \<comment> \<open>The persisted layout: an array of entries.\<close>
  "spec_compatible_shape v = (case v of JArr xs \<Rightarrow> list_all spec_entry_shape xs | _ \<Rightarrow> False)"

definition savedEntry :: "string \<Rightarrow> string \<Rightarrow> nat \<Rightarrow> AppState \<Rightarrow> LeaderboardEntry" where
  \<comment> \<open>The entry that \<open>handleSaveWin\<close> makes of a win of \<open>w\<close> attempts.\<close>
  "savedEntry newId nowISO w st =
     \<lparr>id_e = newId, playerName_e = trim (playerName st),
      difficulty_e = key (difficulty st), attempts_e = w,
      rangeMax_e = max_cfg (difficulty st), dateISO_e = nowISO\<rparr>"

definition recordWin ::
  "(string \<Rightarrow> string \<Rightarrow> int) \<Rightarrow> string \<Rightarrow> DifficultyKey \<Rightarrow> nat \<Rightarrow> string \<Rightarrow> string
   \<Rightarrow> AppState \<Rightarrow> AppState" where
  \<comment> \<open>A win of \<open>w\<close> attempts at difficulty \<open>k\<close>, saved under \<open>name\<close>.\<close>
  "recordWin localeCompare name k w newId nowISO st =
     snd (handleSaveWin localeCompare newId nowISO
            (st\<lparr>difficultyKey := k, pendingWinAttempts := Some w, playerName := name\<rparr>))"

subsection \<open>Example states\<close>

definition instantCompare :: "string \<Rightarrow> string \<Rightarrow> int" where
  \<comment> \<open>A collation for the examples, which orders timestamps by their instant.\<close>
  "instantCompare x y =
     (if timeValue x < timeValue y then - 1 else if timeValue y < timeValue x then 1 else 0)"

definition entryOf :: "string \<Rightarrow> DifficultyKey \<Rightarrow> nat \<Rightarrow> string \<Rightarrow> LeaderboardEntry" where
  \<comment> \<open>An entry of a player for the examples.\<close>
  "entryOf name d w t =
     \<lparr>id_e = name, playerName_e = name, difficulty_e = d, attempts_e = w,
      rangeMax_e = max_cfg (findDifficulty d), dateISO_e = t\<rparr>"

definition exampleRound :: AppState where
  \<comment> \<open>An easy round with target 7.\<close>
  "exampleRound = startNewGame Easy 7 (initialState 3)"

definition tieDate :: string where
  "tieDate = ''2024-05-01T10:00:00.000Z''"

definition tieEntry :: "nat \<Rightarrow> LeaderboardEntry" where
  "tieEntry i =
     \<lparr>id_e = natToString i, playerName_e = ''Bo'', difficulty_e = Easy, attempts_e = 2,
      rangeMax_e = 20, dateISO_e = tieDate\<rparr>"

definition fiftyTies :: "LeaderboardEntry list" where
  \<comment> \<open>Fifty easy wins in two attempts, all of one timestamp.\<close>
  "fiftyTies = map tieEntry [0..<50]"

definition tieState :: AppState where
  \<comment> \<open>A full leaderboard, and an easy win in two attempts waiting for the name typed.\<close>
  "tieState =
     (initialState 7)\<lparr>leaderboard := fiftyTies, gameOver := True, attempts := 2,
                       pendingWinAttempts := Some 2, nameModalOpen := True,
                       playerName := ''Ann''\<rparr>"

definition tieNew :: LeaderboardEntry where
  \<comment> \<open>The entry of that win, saved at the timestamp of the fifty.\<close>
  "tieNew =
     \<lparr>id_e = ''new'', playerName_e = ''Ann'', difficulty_e = Easy, attempts_e = 2,
      rangeMax_e = 20, dateISO_e = tieDate\<rparr>"

definition hugeGuess :: string where
  \<comment> \<open>The decimal digits of \<open>10 ^ 309\<close>: a one and 309 zeros.\<close>
  "hugeGuess = CHR ''1'' # replicate 309 (CHR ''0'')"

section \<open>Facts about the model\<close>

subsection \<open>Difficulties\<close>

lemma findDifficulty_Easy:
  "findDifficulty Easy = \<lparr>key = Easy, label = ''Easy'', min_cfg = 1, max_cfg = 20, maxAttempts = 6\<rparr>"
  by (simp add: findDifficulty_def DIFFICULTIES_def)

lemma findDifficulty_Medium:
  "findDifficulty Medium = \<lparr>key = Medium, label = ''Medium'', min_cfg = 1, max_cfg = 50, maxAttempts = 8\<rparr>"
  by (simp add: findDifficulty_def DIFFICULTIES_def)

lemma findDifficulty_Hard:
  "findDifficulty Hard = \<lparr>key = Hard, label = ''Hard'', min_cfg = 1, max_cfg = 100, maxAttempts = 10\<rparr>"
  by (simp add: findDifficulty_def DIFFICULTIES_def)

lemmas findDifficulty_simps = findDifficulty_Easy findDifficulty_Medium findDifficulty_Hard

lemma maxAttempts_pos: "0 < maxAttempts (findDifficulty k)"
  by (cases k) (simp_all add: findDifficulty_simps)

subsection \<open>Rounding is exact on the integers below \<open>2 ^ 53\<close>\<close>

lemma bitLength_le: "n < 2 ^ k \<Longrightarrow> bitLength n \<le> int k"
proof (induction k arbitrary: n)
  case 0
  then have "n \<le> 0" by simp
  then show ?case by (simp add: bitLength.simps)
next
  case (Suc k)
  show ?case
  proof (cases "n \<le> 0")
    case True
    then show ?thesis by (simp add: bitLength.simps)
  next
    case False
    from Suc.prems have "n div 2 < 2 ^ k" by simp
    then have "bitLength (n div 2) \<le> int k" by (rule Suc.IH)
    with False show ?thesis by (subst bitLength.simps) simp
  qed
qed

lemma bitLength_one: "bitLength 1 = 1"
  by (simp add: bitLength.simps [of 1] bitLength.simps [of 0])

lemma floorLog2_small: "n < 2 ^ 53 \<Longrightarrow> floorLog2 (of_int n) \<le> 52"
  using bitLength_le [of n 53]
  by (simp add: floorLog2_def bitLength_one Let_def)

lemma roundHalfEven_of_int: "roundHalfEven (of_int m) = m"
  by (simp add: roundHalfEven_def Let_def)

lemma pow2_nonpos: "p \<le> 0 \<Longrightarrow> pow2 p = 1 / 2 ^ nat (- p)"
  by (cases "p = 0") (simp_all add: pow2_def)

lemma nearestDouble_small:
  assumes "n < 2 ^ 53"
  shows "nearestDouble (of_int n) = of_int n"
proof -
  define p where "p = max (floorLog2 (of_int n)) (- 1022) - 52"
  have "p \<le> 0"
    using floorLog2_small [OF assms] by (simp add: p_def)
  then have pw: "pow2 p = 1 / 2 ^ nat (- p)" by (rule pow2_nonpos)
  have "of_int n / pow2 p = (of_int (n * 2 ^ nat (- p)) :: rat)"
    by (simp add: pw)
  then have "roundHalfEven (of_int n / pow2 p) = n * 2 ^ nat (- p)"
    by (simp only: roundHalfEven_of_int)
  then show ?thesis
    unfolding nearestDouble_def Let_def p_def [symmetric]
    by (simp add: pw)
qed

lemma roundMV_small:
  assumes "0 \<le> n" and "n < 2 ^ 53"
  shows "roundMV (of_int n) = Finite (of_int n)"
proof (cases "n = 0")
  case True
  then show ?thesis by (simp add: roundMV_def)
next
  case False
  with assms have pos: "0 < n" by simp
  have "(of_int n :: rat) < of_int (2 ^ 53)"
    using assms(2) by (simp only: of_int_less_iff)
  also have "(of_int (2 ^ 53) :: rat) < 2 ^ 1024" by simp
  finally have "\<not> (2 ^ 1024 \<le> (of_int n :: rat))" by simp
  with pos show ?thesis
    by (simp add: roundMV_def nearestDouble_small [OF assms(2)] Let_def)
qed

subsection \<open>Parsing strings of decimal digits\<close>

lemma isDigit_not_space: "isDigit c \<Longrightarrow> \<not> isWhiteSpace c"
  by (auto simp add: isDigit_def isWhiteSpace_def)

lemma digitValue_nonneg: "0 \<le> digitValue c"
  by (simp add: digitValue_def Let_def)

lemma foldl_digits_nonneg:
  "0 \<le> acc \<Longrightarrow> 0 \<le> foldl (\<lambda>acc c. 10 * acc + digitValue c) acc ds"
  by (induction ds arbitrary: acc) (simp_all add: digitValue_nonneg)

lemma digitsValue_nonneg: "0 \<le> digitsValue 10 ds"
  by (simp add: digitsValue_def foldl_digits_nonneg)

lemma trim_padded:
  assumes "list_all isWhiteSpace w1" and "list_all isWhiteSpace w2"
    and "ds \<noteq> []" and "\<not> isWhiteSpace (hd ds)" and "\<not> isWhiteSpace (last ds)"
  shows "trim (w1 @ ds @ w2) = ds"
proof -
  have "dropWhile isWhiteSpace (w1 @ ds @ w2) = dropWhile isWhiteSpace (ds @ w2)"
    using assms(1) by (simp add: dropWhile_append2 list_all_iff)
  also have "\<dots> = ds @ w2"
    using assms(3,4) by (cases ds) simp_all
  finally have front: "dropWhile isWhiteSpace (w1 @ ds @ w2) = ds @ w2" .
  have "\<And>x. x \<in> set (rev w2) \<Longrightarrow> isWhiteSpace x"
    using assms(2) by (simp add: list_all_iff)
  then have "dropWhile isWhiteSpace (rev w2 @ rev ds) = dropWhile isWhiteSpace (rev ds)"
    by (rule dropWhile_append2)
  also have "\<dots> = rev ds"
    using assms(3,5) by (cases "rev ds") (simp_all add: hd_rev)
  finally show ?thesis
    by (simp add: trim_def front)
qed

lemma trim_blank: "list_all isWhiteSpace s \<Longrightarrow> trim s = []"
proof -
  assume "list_all isWhiteSpace s"
  then have blank: "dropWhile isWhiteSpace s = []"
    by (simp add: list_all_iff)
  show ?thesis unfolding trim_def blank by simp
qed

lemma takeWhile_digits: "list_all isDigit ds \<Longrightarrow> takeWhile isDigit ds = ds"
  by (simp add: list_all_iff)

lemma dropWhile_digits: "list_all isDigit ds \<Longrightarrow> dropWhile isDigit ds = []"
  by (simp add: list_all_iff)

lemma unsignedDecimal_digits:
  assumes "ds \<noteq> []" and "list_all isDigit ds"
  shows "unsignedDecimal ds = roundMV (of_int (digitsValue 10 ds))"
proof -
  have "\<not> isDigit (CHR ''I'')" by (simp add: isDigit_def)
  with assms(2) have "ds \<noteq> ''Infinity''" by auto
  then show ?thesis
    using assms(1)
    by (simp add: unsignedDecimal_def exponentPart_def pow10_def Let_def
        takeWhile_digits [OF assms(2)] dropWhile_digits [OF assms(2)])
qed

lemma decimalLiteral_digits:
  assumes "ds \<noteq> []" and "list_all isDigit ds"
  shows "decimalLiteral ds = roundMV (of_int (digitsValue 10 ds))"
proof -
  obtain c r where ds: "ds = c # r" using assms(1) by (cases ds) auto
  with assms(2) have "isDigit c" by simp
  then have "c \<noteq> CHR ''+''" "c \<noteq> CHR ''-''" by (auto simp add: isDigit_def)
  then show ?thesis
    using unsignedDecimal_digits [OF assms] by (simp add: decimalLiteral_def ds)
qed

lemma digits_no_prefix:
  assumes "list_all isDigit ds"
    and "p = CHR ''x'' \<or> p = CHR ''X'' \<or> p = CHR ''o'' \<or> p = CHR ''O'' \<or> p = CHR ''b'' \<or> p = CHR ''B''"
  shows "take 2 ds \<noteq> [CHR ''0'', p]"
proof
  assume eq: "take 2 ds = [CHR ''0'', p]"
  then have "p \<in> set (take 2 ds)" by simp
  then have "p \<in> set ds" by (rule in_set_takeD)
  with assms(1) have "isDigit p" by (simp add: list_all_iff)
  with assms(2) show False by (auto simp add: isDigit_def)
qed

lemma trim_digits:
  assumes "ds \<noteq> []" and "list_all isDigit ds"
  shows "trim ds = ds"
proof -
  have "isDigit (hd ds)" "isDigit (last ds)"
    using assms by (simp_all add: list_all_iff)
  then have "\<not> isWhiteSpace (hd ds)" "\<not> isWhiteSpace (last ds)"
    by (simp_all add: isDigit_not_space)
  then show ?thesis
    using trim_padded [of "[]" "[]" ds] assms(1) by simp
qed

lemma Number_digits:
  assumes "ds \<noteq> []" and "list_all isDigit ds"
  shows "Number ds = roundMV (of_int (digitsValue 10 ds))"
  using assms digits_no_prefix [OF assms(2)]
  by (simp add: Number_def trim_digits decimalLiteral_digits Let_def)

lemma parseGuess_trimmed_digits:
  assumes "trim text = ds" and "ds \<noteq> []" and "list_all isDigit ds"
    and "digitsValue 10 ds < 2 ^ 53"
  shows "parseGuess text = Some (digitsValue 10 ds)"
  using assms roundMV_small [OF digitsValue_nonneg assms(4)]
  by (simp add: parseGuess_def Number_digits Number_isFinite_def Number_isInteger_def Let_def)

lemma parseGuess_digits:
  assumes "ds \<noteq> []" and "list_all isDigit ds" and "digitsValue 10 ds < 2 ^ 53"
    and "list_all isWhiteSpace w1" and "list_all isWhiteSpace w2"
  shows "parseGuess (w1 @ ds @ w2) = Some (digitsValue 10 ds)"
proof -
  have "isDigit (hd ds)" "isDigit (last ds)"
    using assms(1,2) by (simp_all add: list_all_iff)
  then have "\<not> isWhiteSpace (hd ds)" "\<not> isWhiteSpace (last ds)"
    by (simp_all add: isDigit_not_space)
  then have "trim (w1 @ ds @ w2) = ds"
    using trim_padded assms by blast
  then show ?thesis
    using assms(1-3) by (rule parseGuess_trimmed_digits)
qed

lemma parseGuess_7: "parseGuess ''7'' = Some 7"
  using parseGuess_digits [of "''7''" "[]" "[]"]
  by (simp add: isDigit_def digitsValue_def digitValue_def)

lemma parseGuess_8: "parseGuess ''8'' = Some 8"
  using parseGuess_digits [of "''8''" "[]" "[]"]
  by (simp add: isDigit_def digitsValue_def digitValue_def)

lemma parseGuess_21: "parseGuess ''21'' = Some 21"
  using parseGuess_digits [of "''21''" "[]" "[]"]
  by (simp add: isDigit_def digitsValue_def digitValue_def)

lemma parseGuess_padded_7: "parseGuess '' 7 '' = Some 7"
  using parseGuess_digits [of "''7''" "'' ''" "'' ''"]
  by (simp add: isDigit_def isWhiteSpace_def digitsValue_def digitValue_def)

lemma parseGuess_abc: "parseGuess ''abc'' = None"
  by (simp add: parseGuess_def Number_def trim_def isWhiteSpace_def decimalLiteral_def
      unsignedDecimal_def isDigit_def Number_isFinite_def Let_def)

lemma parseGuess_empty: "trim text = [] \<Longrightarrow> parseGuess text = None"
  by (simp add: parseGuess_def)

lemma parseGuess_hex: "parseGuess ''0x10'' = Some 16"
  using roundMV_small [of 16]
  by (simp add: parseGuess_def Number_def trim_def isWhiteSpace_def nonDecimalInteger_def
      isRadixDigit_def digitsValue_def digitValue_def Number_isFinite_def
      Number_isInteger_def Let_def)

subsection \<open>Printing numbers\<close>

lemma numToString_1: "numToString 1 = ''1''"
  by (simp add: numToString_def natToString.simps digitChar_def)

lemma numToString_6: "numToString 6 = ''6''"
  by (simp add: numToString_def natToString.simps digitChar_def)

lemma numToString_7: "numToString 7 = ''7''"
  by (simp add: numToString_def natToString.simps digitChar_def)

lemma numToString_20: "numToString 20 = ''20''"
  by (simp add: numToString_def natToString.simps digitChar_def)

subsection \<open>The round engine\<close>

lemma startNewGame_round_ok: "round_ok (startNewGame k drawn st)"
  by (simp add: round_ok_def startNewGame_def difficulty_def maxAttempts_pos Let_def)

lemma handleSubmitGuess_round_ok: "round_ok st \<Longrightarrow> round_ok (snd (handleSubmitGuess st))"
  by (auto simp add: round_ok_def handleSubmitGuess_def difficulty_def attemptLimitReached_def
      Let_def split: option.splits if_splits)

lemma submitGuess_round_ok: "round_ok st \<Longrightarrow> round_ok (snd (submitGuess r st))"
proof -
  assume "round_ok st"
  then have "round_ok (st\<lparr>guessText := r\<rparr>)"
    by (simp add: round_ok_def difficulty_def split: if_splits)
  then show ?thesis
    unfolding submitGuess_def by (rule handleSubmitGuess_round_ok)
qed

lemma submitAll_round_ok: "round_ok st \<Longrightarrow> round_ok (submitAll rs st)"
  by (induction rs arbitrary: st) (simp_all add: submitGuess_round_ok)

lemma round_ok_bound: "round_ok st \<Longrightarrow> attempts st \<le> maxAttempts (difficulty st)"
  by (simp add: round_ok_def split: if_splits)

lemma submitGuess_over:
  "gameOver st \<Longrightarrow>
   gameOver (snd (submitGuess r st)) \<and> attempts (snd (submitGuess r st)) = attempts st"
  by (simp add: submitGuess_def handleSubmitGuess_def)

lemma submitAll_over:
  "gameOver st \<Longrightarrow> gameOver (submitAll rs st) \<and> attempts (submitAll rs st) = attempts st"
proof (induction rs arbitrary: st)
  case Nil
  then show ?case by simp
next
  case (Cons r rs)
  from Cons.prems
  have step: "gameOver (snd (submitGuess r st))" "attempts (snd (submitGuess r st)) = attempts st"
    using submitGuess_over by blast+
  from Cons.IH [OF step(1)] step(2) show ?case by simp
qed

lemma submitAll_append: "submitAll (rs @ rs') st = submitAll rs' (submitAll rs st)"
  by (induction rs arbitrary: st) simp_all

lemma exampleRound_fields:
  "difficultyKey exampleRound = Easy" "target exampleRound = 7" "attempts exampleRound = 0"
  "\<not> gameOver exampleRound"
  by (simp_all add: exampleRound_def startNewGame_def initialState_def Let_def)

lemma difficulty_exampleRound:
  "difficulty (exampleRound\<lparr>attempts := a, guessText := t\<rparr>) = findDifficulty Easy"
  by (simp add: difficulty_def exampleRound_fields)

text \<open>
  \<^bold>\<open>C1.\<close> In a round started by \<open>startNewGame\<close>, after any sequence of submitted guesses the
  attempts are at most the attempt limit of the active difficulty; and once the round is
  over, whatever is submitted next leaves it over and leaves the attempts as they are.
\<close>

theorem round_invariant:
  "attempts (submitAll rs (startNewGame k drawn st))
     \<le> maxAttempts (difficulty (submitAll rs (startNewGame k drawn st)))
   \<and> (gameOver (submitAll rs (startNewGame k drawn st)) \<longrightarrow>
        gameOver (submitAll (rs @ rs') (startNewGame k drawn st))
        \<and> attempts (submitAll (rs @ rs') (startNewGame k drawn st))
            = attempts (submitAll rs (startNewGame k drawn st)))"
  using round_ok_bound [OF submitAll_round_ok [OF startNewGame_round_ok]] submitAll_over
  by (simp add: submitAll_append)

theorem round_invariant_witness:
  "gameOver (submitAll [''7''] (startNewGame Easy 7 (initialState 3)))
   \<and> attempts (submitAll [''7''] (startNewGame Easy 7 (initialState 3))) = 1
   \<and> attempts (submitAll [''7''] (startNewGame Easy 7 (initialState 3)))
       \<le> maxAttempts (difficulty (submitAll [''7''] (startNewGame Easy 7 (initialState 3))))
   \<and> gameOver (submitAll ([''7''] @ [''8'', ''7'']) (startNewGame Easy 7 (initialState 3)))
   \<and> attempts (submitAll ([''7''] @ [''8'', ''7'']) (startNewGame Easy 7 (initialState 3))) = 1"
proof -
  have won: "gameOver (submitAll [''7''] (startNewGame Easy 7 (initialState 3)))
             \<and> attempts (submitAll [''7''] (startNewGame Easy 7 (initialState 3))) = 1"
    by (simp add: submitGuess_def handleSubmitGuess_def parseGuess_7 startNewGame_def
        initialState_def difficulty_def findDifficulty_simps Let_def)
  with round_invariant [of "[''7'']" Easy 7 "initialState 3" "[''8'', ''7'']"]
  show ?thesis by metis
qed

text \<open>
  \<^bold>\<open>C3.\<close> In a round that is not over, a guess in the range that equals the target wins:
  the outcome is \<open>Won\<close> with the attempts counted up by one, and the round is over. Nothing
  is asked of the attempts left, so the last allowed attempt wins as well.
\<close>

theorem win_on_target:
  assumes "\<not> gameOver st"
    and "parseGuess (guessText st) = Some g"
    and "min_cfg (difficulty st) \<le> g" and "g \<le> max_cfg (difficulty st)"
    and "g = target st"
  shows "handleSubmitGuess st =
           (Won (attempts st + 1),
            st\<lparr>attempts := attempts st + 1, gameOver := True,
               hint := ''Correct! You guessed it in '' @ numToString (int (attempts st + 1))
                       @ '' attempt'' @ (if attempts st + 1 = 1 then [] else ''s'') @ ''.'',
               pendingWinAttempts := Some (attempts st + 1), nameModalOpen := True\<rparr>)"
  using assms by (simp add: handleSubmitGuess_def Let_def)

theorem win_on_target_witness:
  "attempts (exampleRound\<lparr>attempts := 5, guessText := ''7''\<rparr>) + 1
     = maxAttempts (difficulty (exampleRound\<lparr>attempts := 5, guessText := ''7''\<rparr>))
   \<and> fst (handleSubmitGuess (exampleRound\<lparr>attempts := 5, guessText := ''7''\<rparr>)) = Won 6
   \<and> gameOver (snd (handleSubmitGuess (exampleRound\<lparr>attempts := 5, guessText := ''7''\<rparr>)))
   \<and> hint (snd (handleSubmitGuess (exampleRound\<lparr>attempts := 5, guessText := ''7''\<rparr>)))
       = ''Correct! You guessed it in 6 attempts.''"
proof -
  let ?st = "exampleRound\<lparr>attempts := 5, guessText := ''7''\<rparr>"
  have d: "difficulty ?st = findDifficulty Easy" by (rule difficulty_exampleRound)
  have "handleSubmitGuess ?st =
           (Won (attempts ?st + 1),
            ?st\<lparr>attempts := attempts ?st + 1, gameOver := True,
               hint := ''Correct! You guessed it in '' @ numToString (int (attempts ?st + 1))
                       @ '' attempt'' @ (if attempts ?st + 1 = 1 then [] else ''s'') @ ''.'',
               pendingWinAttempts := Some (attempts ?st + 1), nameModalOpen := True\<rparr>)"
    by (rule win_on_target [of ?st 7])
       (simp_all add: exampleRound_fields d findDifficulty_simps parseGuess_7)
  then show ?thesis
    by (simp add: d findDifficulty_simps numToString_6)
qed

text \<open>
  \<^bold>\<open>C4.\<close> In a round that is not over, a guess in the range that is not the target and
  that brings the attempts to the attempt limit loses: the outcome is \<open>Lost\<close>, the round is
  over, and the hint tells the target.
\<close>

theorem loss_on_last_attempt:
  assumes "\<not> gameOver st"
    and "parseGuess (guessText st) = Some g"
    and "min_cfg (difficulty st) \<le> g" and "g \<le> max_cfg (difficulty st)"
    and "g \<noteq> target st"
    and "maxAttempts (difficulty st) \<le> attempts st + 1"
  shows "handleSubmitGuess st =
           (Lost (target st),
            st\<lparr>attempts := attempts st + 1, gameOver := True,
               hint := ''Game over. The number was '' @ numToString (target st) @ ''.''\<rparr>)"
  using assms by (simp add: handleSubmitGuess_def attemptLimitReached_def Let_def)

theorem loss_on_last_attempt_witness:
  "fst (handleSubmitGuess (exampleRound\<lparr>attempts := 5, guessText := ''8''\<rparr>)) = Lost 7
   \<and> gameOver (snd (handleSubmitGuess (exampleRound\<lparr>attempts := 5, guessText := ''8''\<rparr>)))
   \<and> attempts (snd (handleSubmitGuess (exampleRound\<lparr>attempts := 5, guessText := ''8''\<rparr>))) = 6
   \<and> hint (snd (handleSubmitGuess (exampleRound\<lparr>attempts := 5, guessText := ''8''\<rparr>)))
       = ''Game over. The number was 7.''"
  using loss_on_last_attempt [of "exampleRound\<lparr>attempts := 5, guessText := ''8''\<rparr>" 8]
  by (simp add: exampleRound_fields difficulty_exampleRound findDifficulty_simps parseGuess_8
      numToString_7)

text \<open>
  \<^bold>\<open>C6.\<close> In a round that is not over, a text that \<open>parseGuess\<close> rejects, or a parsed
  integer outside the range of the active difficulty, changes the hint and nothing else:
  attempts, target and the end of the round stay as they are. The outcome is
  \<open>InvalidInput\<close> with the hint asking for a whole number, or \<open>OutOfRange\<close> with the hint
  that restates the bounds.
\<close>

theorem rejected_guess_frame:
  assumes "\<not> gameOver st"
    and "parseGuess (guessText st) = None
         \<or> (\<exists>g. parseGuess (guessText st) = Some g
                \<and> (g < min_cfg (difficulty st) \<or> max_cfg (difficulty st) < g))"
  shows "handleSubmitGuess st =
           (if parseGuess (guessText st) = None
            then (InvalidInput, st\<lparr>hint := ''Please enter a whole number.''\<rparr>)
            else (OutOfRange,
                  st\<lparr>hint := ''Your guess must be between ''
                              @ numToString (min_cfg (difficulty st)) @ '' and ''
                              @ numToString (max_cfg (difficulty st)) @ ''.''\<rparr>))"
  using assms by (auto simp add: handleSubmitGuess_def)

theorem rejected_guess_frame_witness:
  "handleSubmitGuess (exampleRound\<lparr>attempts := 2, guessText := ''abc''\<rparr>)
     = (InvalidInput,
        exampleRound\<lparr>attempts := 2, guessText := ''abc'', hint := ''Please enter a whole number.''\<rparr>)
   \<and> handleSubmitGuess (exampleRound\<lparr>attempts := 2, guessText := ''21''\<rparr>)
     = (OutOfRange,
        exampleRound\<lparr>attempts := 2, guessText := ''21'',
                     hint := ''Your guess must be between 1 and 20.''\<rparr>)"
  using rejected_guess_frame [of "exampleRound\<lparr>attempts := 2, guessText := ''abc''\<rparr>"]
    rejected_guess_frame [of "exampleRound\<lparr>attempts := 2, guessText := ''21''\<rparr>"]
  by (simp add: exampleRound_fields difficulty_exampleRound findDifficulty_simps parseGuess_abc
      parseGuess_21 numToString_1 numToString_20)


subsection \<open>The comparator and the ranking rule\<close>

lemma order_tbl_eq: "order_tbl d = order_tbl d' \<longleftrightarrow> d = d'"
  by (cases d; cases d') (simp_all add: order_tbl_def)

lemma spec_easier_order_tbl: "spec_easier d d' \<longleftrightarrow> order_tbl d < order_tbl d'"
  by (cases d; cases d') (simp_all add: spec_easier_def order_tbl_def)

lemma collation_less:
  "collatesTimestamps lc \<Longrightarrow> isoTimestamp x \<Longrightarrow> isoTimestamp y
   \<Longrightarrow> lc x y < 0 \<longleftrightarrow> timeValue x < timeValue y"
  by (simp add: collatesTimestamps_def)

lemma collation_greater:
  "collatesTimestamps lc \<Longrightarrow> isoTimestamp x \<Longrightarrow> isoTimestamp y
   \<Longrightarrow> 0 < lc x y \<longleftrightarrow> timeValue y < timeValue x"
  by (simp add: collatesTimestamps_def)

lemma compareEntries_less:
  assumes "collatesTimestamps lc"
    and "isoTimestamp (dateISO_e a)" and "isoTimestamp (dateISO_e b)"
  shows "compareEntries lc a b < 0 \<longleftrightarrow> spec_ranks_above a b"
  using collation_less [OF assms(1,3,2)] order_tbl_eq [of "difficulty_e a" "difficulty_e b"]
  by (auto simp add: compareEntries_def spec_ranks_above_def spec_easier_order_tbl)

lemma compareEntries_greater:
  assumes "collatesTimestamps lc"
    and "isoTimestamp (dateISO_e a)" and "isoTimestamp (dateISO_e b)"
  shows "0 < compareEntries lc a b \<longleftrightarrow> spec_ranks_above b a"
  using collation_greater [OF assms(1,3,2)] order_tbl_eq [of "difficulty_e a" "difficulty_e b"]
  by (auto simp add: compareEntries_def spec_ranks_above_def spec_easier_order_tbl)

lemma compareEntries_easier:
  "spec_easier (difficulty_e c) (difficulty_e d) \<Longrightarrow> compareEntries lc c d < 0"
  using order_tbl_eq [of "difficulty_e c" "difficulty_e d"]
  by (auto simp add: compareEntries_def spec_easier_order_tbl)

lemma compareEntries_fewer:
  "difficulty_e c = difficulty_e d \<Longrightarrow> attempts_e c < attempts_e d
   \<Longrightarrow> compareEntries lc c d < 0"
  by (simp add: compareEntries_def)

lemma spec_ranks_above_arith:
  "spec_ranks_above a b \<longleftrightarrow>
     order_tbl (difficulty_e a) < order_tbl (difficulty_e b)
     \<or> (order_tbl (difficulty_e a) = order_tbl (difficulty_e b)
         \<and> (attempts_e a < attempts_e b
             \<or> (attempts_e a = attempts_e b
                 \<and> timeValue (dateISO_e b) < timeValue (dateISO_e a))))"
  by (simp add: spec_ranks_above_def spec_easier_order_tbl order_tbl_eq)

lemma spec_same_rank_arith:
  "spec_same_rank a b \<longleftrightarrow>
     order_tbl (difficulty_e a) = order_tbl (difficulty_e b)
     \<and> attempts_e a = attempts_e b
     \<and> timeValue (dateISO_e a) = timeValue (dateISO_e b)"
  by (simp add: spec_same_rank_def order_tbl_eq)

lemma spec_trichotomy:
  "(spec_ranks_above a b \<and> \<not> spec_same_rank a b \<and> \<not> spec_ranks_above b a)
   \<or> (spec_same_rank a b \<and> \<not> spec_ranks_above a b \<and> \<not> spec_ranks_above b a)
   \<or> (spec_ranks_above b a \<and> \<not> spec_ranks_above a b \<and> \<not> spec_same_rank a b)"
  unfolding spec_ranks_above_arith spec_same_rank_arith by linarith

lemma compareEntries_eq:
  assumes "collatesTimestamps lc"
    and "isoTimestamp (dateISO_e a)" and "isoTimestamp (dateISO_e b)"
  shows "compareEntries lc a b = 0 \<longleftrightarrow> spec_same_rank a b"
proof -
  have "compareEntries lc a b = 0
          \<longleftrightarrow> \<not> compareEntries lc a b < 0 \<and> \<not> 0 < compareEntries lc a b"
    by linarith
  then show ?thesis
    using spec_trichotomy [of a b]
    unfolding compareEntries_less [OF assms] compareEntries_greater [OF assms]
    by blast
qed

lemma compareEntries_le:
  assumes "collatesTimestamps lc"
    and "isoTimestamp (dateISO_e a)" and "isoTimestamp (dateISO_e b)"
  shows "compareEntries lc a b \<le> 0 \<longleftrightarrow> \<not> spec_ranks_above b a"
  using compareEntries_greater [OF assms] by linarith

lemma spec_not_above_total: "\<not> spec_ranks_above b a \<or> \<not> spec_ranks_above a b"
  using spec_trichotomy [of a b] by blast

lemma spec_not_above_trans:
  "\<not> spec_ranks_above b a \<Longrightarrow> \<not> spec_ranks_above c b \<Longrightarrow> \<not> spec_ranks_above c a"
  unfolding spec_ranks_above_arith by linarith

lemma spec_ranks_above_irrefl: "\<not> spec_ranks_above a a"
  by (simp add: spec_ranks_above_def spec_easier_def)

lemma collatesTimestamps_instantCompare: "collatesTimestamps instantCompare"
  by (simp add: collatesTimestamps_def instantCompare_def)

subsection \<open>The sort\<close>

lemma mset_insert_by: "mset (insert_by cmp x ys) = add_mset x (mset ys)"
  by (induction ys) simp_all

lemma mset_Array_sort: "mset (Array_sort cmp xs) = mset xs"
  by (induction xs) (simp_all add: Array_sort_def mset_insert_by)

lemma set_insert_by: "set (insert_by cmp x ys) = insert x (set ys)"
  using mset_insert_by [of cmp x ys] by (metis set_mset_add_mset_insert set_mset_mset)

lemma set_Array_sort: "set (Array_sort cmp xs) = set xs"
  using mset_Array_sort [of cmp xs] by (metis set_mset_mset)

lemma length_Array_sort: "length (Array_sort cmp xs) = length xs"
  using mset_Array_sort [of cmp xs] by (metis size_mset)

lemma Array_sort_Cons: "Array_sort cmp (x # xs) = insert_by cmp x (Array_sort cmp xs)"
  by (simp add: Array_sort_def)

lemma sorted_insert_by:
  assumes total: "\<And>a b. R a b \<or> R b a"
    and trans: "\<And>a b c. R a b \<Longrightarrow> R b c \<Longrightarrow> R a c"
  shows "\<forall>y\<in>set ys. cmp x y \<le> 0 \<longleftrightarrow> R x y \<Longrightarrow> sorted_wrt R ys
         \<Longrightarrow> sorted_wrt R (insert_by cmp x ys)"
proof (induction ys)
  case Nil
  then show ?case by simp
next
  case (Cons y ys)
  show ?case
  proof (cases "cmp x y \<le> 0")
    case True
    with Cons.prems have "R x y" by simp
    then have "\<forall>z\<in>set (y # ys). R x z"
      using Cons.prems(2) trans by auto
    with True Cons.prems show ?thesis by simp
  next
    case False
    with Cons.prems have "\<not> R x y" by simp
    then have "R y x" using total by blast
    with False Cons show ?thesis by (auto simp add: set_insert_by)
  qed
qed

lemma sorted_Array_sort:
  assumes total: "\<And>a b. R a b \<or> R b a"
    and trans: "\<And>a b c. R a b \<Longrightarrow> R b c \<Longrightarrow> R a c"
  shows "\<forall>a\<in>set xs. \<forall>b\<in>set xs. cmp a b \<le> 0 \<longleftrightarrow> R a b
         \<Longrightarrow> sorted_wrt R (Array_sort cmp xs)"
proof (induction xs)
  case Nil
  then show ?case by (simp add: Array_sort_def)
next
  case (Cons x xs)
  from Cons.prems have "\<forall>a\<in>set xs. \<forall>b\<in>set xs. cmp a b \<le> 0 \<longleftrightarrow> R a b" by simp
  then have ih: "sorted_wrt R (Array_sort cmp xs)" by (rule Cons.IH)
  from Cons.prems have "\<forall>y\<in>set (Array_sort cmp xs). cmp x y \<le> 0 \<longleftrightarrow> R x y"
    by (simp add: set_Array_sort)
  with total trans have "sorted_wrt R (insert_by cmp x (Array_sort cmp xs))"
    using ih by (rule sorted_insert_by)
  then show ?case by (simp only: Array_sort_Cons)
qed

lemma sorted_sortLeaderboard:
  assumes "collatesTimestamps lc" and "list_all (\<lambda>e. isoTimestamp (dateISO_e e)) es"
  shows "sorted_wrt (\<lambda>a b. \<not> spec_ranks_above b a) (sortLeaderboard lc es)"
proof -
  have "\<forall>a\<in>set es. \<forall>b\<in>set es.
          compareEntries lc a b \<le> 0 \<longleftrightarrow> \<not> spec_ranks_above b a"
    using assms(2) compareEntries_le [OF assms(1)] by (simp add: list_all_iff)
  with spec_not_above_total spec_not_above_trans
  have "sorted_wrt (\<lambda>a b. \<not> spec_ranks_above b a) (Array_sort (compareEntries lc) es)"
    by (rule sorted_Array_sort)
  then show ?thesis by (simp only: sortLeaderboard_def)
qed

lemma insert_by_split:
  "insert_by cmp x ys
     = takeWhile (\<lambda>y. \<not> cmp x y \<le> 0) ys @ x # dropWhile (\<lambda>y. \<not> cmp x y \<le> 0) ys"
  by (induction ys) simp_all

lemma insert_by_first: "\<forall>e\<in>set ys. cmp x e \<le> 0 \<Longrightarrow> insert_by cmp x ys = x # ys"
  by (cases ys) simp_all

lemma sortLeaderboard_split:
  assumes "collatesTimestamps lc" and "isoTimestamp (dateISO_e entry)"
    and "list_all (\<lambda>e. isoTimestamp (dateISO_e e)) lb"
  shows "sortLeaderboard lc (entry # lb)
           = takeWhile (\<lambda>e. spec_ranks_above e entry) (sortLeaderboard lc lb)
             @ entry # dropWhile (\<lambda>e. spec_ranks_above e entry) (sortLeaderboard lc lb)"
proof -
  have agree: "\<And>e. e \<in> set (sortLeaderboard lc lb)
                 \<Longrightarrow> (\<not> compareEntries lc entry e \<le> 0) = spec_ranks_above e entry"
    using assms(3) compareEntries_le [OF assms(1,2)]
    by (simp add: sortLeaderboard_def set_Array_sort list_all_iff)
  have t: "takeWhile (\<lambda>e. \<not> compareEntries lc entry e \<le> 0) (sortLeaderboard lc lb)
             = takeWhile (\<lambda>e. spec_ranks_above e entry) (sortLeaderboard lc lb)"
    using agree by (rule takeWhile_cong [OF refl])
  have d: "dropWhile (\<lambda>e. \<not> compareEntries lc entry e \<le> 0) (sortLeaderboard lc lb)
             = dropWhile (\<lambda>e. spec_ranks_above e entry) (sortLeaderboard lc lb)"
    using agree by (rule dropWhile_cong [OF refl])
  have "sortLeaderboard lc (entry # lb)
          = insert_by (compareEntries lc) entry (sortLeaderboard lc lb)"
    by (simp add: sortLeaderboard_def Array_sort_Cons)
  then show ?thesis
    by (simp only: insert_by_split [of "compareEntries lc" entry] t d)
qed

lemma length_takeWhile_le_filter: "length (takeWhile P xs) \<le> length (filter P xs)"
  by (induction xs) simp_all

lemma length_filter_sortLeaderboard:
  "length (filter P (sortLeaderboard lc lb)) = length (filter P lb)"
proof -
  have "mset (filter P (sortLeaderboard lc lb)) = mset (filter P lb)"
    by (simp add: sortLeaderboard_def mset_Array_sort)
  then show ?thesis by (metis size_mset)
qed

subsection \<open>Saving a win\<close>

lemma handleSaveWin_saved:
  assumes "pendingWinAttempts st = Some w" and "trim (playerName st) \<noteq> []"
  shows "handleSaveWin lc newId nowISO st =
           ([SetItem (take 50 (sortLeaderboard lc (savedEntry newId nowISO w st # leaderboard st)))],
            st\<lparr>leaderboard :=
                  take 50 (sortLeaderboard lc (savedEntry newId nowISO w st # leaderboard st)),
               nameModalOpen := False, playerName := [],
               pendingWinAttempts := None, leaderboardOpen := True\<rparr>)"
  using assms by (simp add: handleSaveWin_def savedEntry_def Let_def)

lemma trim_Ann: "trim ''Ann'' = ''Ann''"
  by (simp add: trim_def isWhiteSpace_def)

lemma trim_Bo: "trim ''Bo'' = ''Bo''"
  by (simp add: trim_def isWhiteSpace_def)

lemma trim_Cy: "trim ''Cy'' = ''Cy''"
  by (simp add: trim_def isWhiteSpace_def)

lemma length_fiftyTies: "length fiftyTies = 50"
  by (simp add: fiftyTies_def)

lemma isoTimestamp_tieDate: "isoTimestamp tieDate"
  by (simp add: isoTimestamp_def tieDate_def isDigit_def)

lemma tieState_fields:
  "pendingWinAttempts tieState = Some 2" "playerName tieState = ''Ann''"
  "leaderboard tieState = fiftyTies" "difficulty tieState = findDifficulty Easy"
  by (simp_all add: tieState_def initialState_def difficulty_def)

lemma fiftyTies_keys:
  "e \<in> set fiftyTies \<Longrightarrow>
   difficulty_e e = Easy \<and> attempts_e e = 2 \<and> dateISO_e e = tieDate"
  by (auto simp add: fiftyTies_def tieEntry_def)

lemma iso_fiftyTies: "list_all (\<lambda>e. isoTimestamp (dateISO_e e)) fiftyTies"
  using fiftyTies_keys isoTimestamp_tieDate by (simp add: list_all_iff)

text \<open>
  \<^bold>\<open>C2.\<close> Under any collation and for any timestamps, the comparator puts an entry of an
  easier difficulty before one of a harder, whatever the attempts, and within a difficulty
  the entry of fewer attempts first. On entries whose timestamps have the shape that
  \<open>toISOString\<close> prints, and with a collation that orders such timestamps by their
  instant, the comparator of \<open>sortLeaderboard\<close> is the ranking rule: easy before medium before hard, whatever the
  attempts; within a difficulty the fewer attempts first; within both the later timestamp
  first. Of two entries one ranks above the other or they share a rank, and never two of
  these at once. \<open>sortLeaderboard\<close> rearranges the entries it is given so that no entry
  stands before one that ranks above it. Wins of Ann (hard, 4 attempts), Bo (easy, 2) and
  Cy (easy, 5), recorded in this order from the empty leaderboard, are listed as Bo, Cy,
  Ann, under any collation.
\<close>

theorem leaderboard_ranking:
  assumes "collatesTimestamps lc"
    and "isoTimestamp (dateISO_e a)" and "isoTimestamp (dateISO_e b)"
    and "list_all (\<lambda>e. isoTimestamp (dateISO_e e)) es"
  shows
  "(spec_easier (difficulty_e c) (difficulty_e d) \<longrightarrow> compareEntries lc' c d < 0)
   \<and> (difficulty_e c = difficulty_e d \<and> attempts_e c < attempts_e d
       \<longrightarrow> compareEntries lc' c d < 0)
   \<and> (compareEntries lc a b < 0 \<longleftrightarrow> spec_ranks_above a b)
   \<and> (compareEntries lc a b = 0 \<longleftrightarrow> spec_same_rank a b)
   \<and> (0 < compareEntries lc a b \<longleftrightarrow> spec_ranks_above b a)
   \<and> ((spec_ranks_above a b \<and> \<not> spec_same_rank a b \<and> \<not> spec_ranks_above b a)
      \<or> (spec_same_rank a b \<and> \<not> spec_ranks_above a b \<and> \<not> spec_ranks_above b a)
      \<or> (spec_ranks_above b a \<and> \<not> spec_ranks_above a b \<and> \<not> spec_same_rank a b))
   \<and> mset (sortLeaderboard lc es) = mset es
   \<and> sorted_wrt (\<lambda>x y. \<not> spec_ranks_above y x) (sortLeaderboard lc es)
   \<and> map playerName_e
        (leaderboard
          (recordWin lc' ''Cy'' Easy 5 idCy atCy
            (recordWin lc' ''Bo'' Easy 2 idBo atBo
              (recordWin lc' ''Ann'' Hard 4 idAnn atAnn (initialState drawn)))))
      = [''Bo'', ''Cy'', ''Ann'']"
proof -
  have scenario:
    "map playerName_e
        (leaderboard
          (recordWin lc' ''Cy'' Easy 5 idCy atCy
            (recordWin lc' ''Bo'' Easy 2 idBo atBo
              (recordWin lc' ''Ann'' Hard 4 idAnn atAnn (initialState drawn)))))
      = [''Bo'', ''Cy'', ''Ann'']"
    by (simp add: recordWin_def handleSaveWin_def initialState_def trim_Ann trim_Bo trim_Cy
        difficulty_def findDifficulty_simps sortLeaderboard_def Array_sort_def
        compareEntries_def order_tbl_def Let_def)
  have perm: "mset (sortLeaderboard lc es) = mset es"
    by (simp add: sortLeaderboard_def mset_Array_sort)
  show ?thesis
    using compareEntries_less [OF assms(1-3)] compareEntries_eq [OF assms(1-3)]
      compareEntries_greater [OF assms(1-3)] spec_trichotomy [of a b]
      perm sorted_sortLeaderboard [OF assms(1,4)] scenario
      compareEntries_easier [of c d lc'] compareEntries_fewer [of c d lc']
    by blast
qed

theorem leaderboard_ranking_witness:
  "collatesTimestamps instantCompare
   \<and> isoTimestamp ''2024-05-01T10:00:00.000Z'' \<and> isoTimestamp ''2024-05-02T09:30:00.000Z''
   \<and> spec_easier (difficulty_e (entryOf ''Bo'' Medium 9 ''2024-05-01T10:00:00.000Z''))
                   (difficulty_e (entryOf ''Ann'' Hard 1 ''2024-05-02T09:30:00.000Z''))
   \<and> spec_ranks_above (entryOf ''Bo'' Medium 9 ''2024-05-01T10:00:00.000Z'')
                        (entryOf ''Ann'' Hard 1 ''2024-05-02T09:30:00.000Z'')
   \<and> compareEntries instantCompare (entryOf ''Bo'' Medium 9 ''2024-05-01T10:00:00.000Z'')
                                    (entryOf ''Ann'' Hard 1 ''2024-05-02T09:30:00.000Z'') < 0
   \<and> spec_ranks_above (entryOf ''Ann'' Easy 3 ''2024-05-02T09:30:00.000Z'')
                        (entryOf ''Bo'' Easy 3 ''2024-05-01T10:00:00.000Z'')
   \<and> compareEntries instantCompare (entryOf ''Ann'' Easy 3 ''2024-05-02T09:30:00.000Z'')
                                    (entryOf ''Bo'' Easy 3 ''2024-05-01T10:00:00.000Z'') < 0
   \<and> sorted_wrt (\<lambda>x y. \<not> spec_ranks_above y x)
        (sortLeaderboard instantCompare
           [entryOf ''Ann'' Hard 1 ''2024-05-02T09:30:00.000Z'',
            entryOf ''Bo'' Medium 9 ''2024-05-01T10:00:00.000Z''])
   \<and> map playerName_e
        (leaderboard
          (recordWin instantCompare ''Cy'' Easy 5 ''3'' ''2024-05-03T10:00:00.000Z''
            (recordWin instantCompare ''Bo'' Easy 2 ''2'' ''2024-05-02T10:00:00.000Z''
              (recordWin instantCompare ''Ann'' Hard 4 ''1'' ''2024-05-01T10:00:00.000Z''
                 (initialState 7)))))
      = [''Bo'', ''Cy'', ''Ann'']"
proof -
  have iso: "isoTimestamp ''2024-05-01T10:00:00.000Z''" "isoTimestamp ''2024-05-02T09:30:00.000Z''"
    by (simp_all add: isoTimestamp_def isDigit_def)
  have tv: "timeValue ''2024-05-01T10:00:00.000Z'' < timeValue ''2024-05-02T09:30:00.000Z''"
    by (simp add: timeValue_def isDigit_def digitsValue_def digitValue_def)
  have above1: "spec_ranks_above (entryOf ''Bo'' Medium 9 ''2024-05-01T10:00:00.000Z'')
                        (entryOf ''Ann'' Hard 1 ''2024-05-02T09:30:00.000Z'')"
    by (simp add: spec_ranks_above_def spec_easier_def entryOf_def)
  have above2: "spec_ranks_above (entryOf ''Ann'' Easy 3 ''2024-05-02T09:30:00.000Z'')
                        (entryOf ''Bo'' Easy 3 ''2024-05-01T10:00:00.000Z'')"
    using tv by (simp add: spec_ranks_above_def entryOf_def)
  have isos: "list_all (\<lambda>e. isoTimestamp (dateISO_e e))
        [entryOf ''Ann'' Hard 1 ''2024-05-02T09:30:00.000Z'',
         entryOf ''Bo'' Medium 9 ''2024-05-01T10:00:00.000Z'']"
    using iso by (simp add: entryOf_def)
  have e1: "isoTimestamp (dateISO_e (entryOf ''Bo'' Medium 9 ''2024-05-01T10:00:00.000Z''))"
    "isoTimestamp (dateISO_e (entryOf ''Ann'' Hard 1 ''2024-05-02T09:30:00.000Z''))"
    "isoTimestamp (dateISO_e (entryOf ''Ann'' Easy 3 ''2024-05-02T09:30:00.000Z''))"
    "isoTimestamp (dateISO_e (entryOf ''Bo'' Easy 3 ''2024-05-01T10:00:00.000Z''))"
    using iso by (simp_all add: entryOf_def)
  note T1 = leaderboard_ranking [OF collatesTimestamps_instantCompare e1(1) e1(2) isos,
      where lc' = instantCompare and idCy = "''3''" and atCy = "''2024-05-03T10:00:00.000Z''"
        and idBo = "''2''" and atBo = "''2024-05-02T10:00:00.000Z''"
        and idAnn = "''1''" and atAnn = "''2024-05-01T10:00:00.000Z''" and drawn = 7
        and c = "entryOf ''Bo'' Medium 9 ''2024-05-01T10:00:00.000Z''"
        and d = "entryOf ''Ann'' Hard 1 ''2024-05-02T09:30:00.000Z''"]
  note T2 = leaderboard_ranking [OF collatesTimestamps_instantCompare e1(3) e1(4) isos,
      where lc' = instantCompare and idCy = "''3''" and atCy = "''2024-05-03T10:00:00.000Z''"
        and idBo = "''2''" and atBo = "''2024-05-02T10:00:00.000Z''"
        and idAnn = "''1''" and atAnn = "''2024-05-01T10:00:00.000Z''" and drawn = 7
        and c = "entryOf ''Bo'' Medium 9 ''2024-05-01T10:00:00.000Z''"
        and d = "entryOf ''Ann'' Hard 1 ''2024-05-02T09:30:00.000Z''"]
  have easier: "spec_easier (difficulty_e (entryOf ''Bo'' Medium 9 ''2024-05-01T10:00:00.000Z''))
                  (difficulty_e (entryOf ''Ann'' Hard 1 ''2024-05-02T09:30:00.000Z''))"
    by (simp add: spec_easier_def entryOf_def)
  from T1 T2 above1 above2 easier iso collatesTimestamps_instantCompare
  show ?thesis by blast
qed

text \<open>
  \<^bold>\<open>C8.\<close> When a win is waiting and the name typed is not blank, the leaderboard after
  \<open>handleSaveWin\<close> has at most 50 entries, whatever the size of the leaderboard before;
  the array handed to the storage is that same leaderboard.
\<close>

theorem recordWin_capped:
  assumes "pendingWinAttempts st = Some w" and "trim (playerName st) \<noteq> []"
  shows "length (leaderboard (snd (handleSaveWin lc newId nowISO st))) \<le> 50
         \<and> length (leaderboard (snd (handleSaveWin lc newId nowISO st)))
             = min 50 (Suc (length (leaderboard st)))
         \<and> fst (handleSaveWin lc newId nowISO st)
             = [SetItem (leaderboard (snd (handleSaveWin lc newId nowISO st)))]"
  by (simp add: handleSaveWin_saved [OF assms] sortLeaderboard_def length_Array_sort)

theorem recordWin_capped_witness:
  "pendingWinAttempts tieState = Some 2
   \<and> trim (playerName tieState) = ''Ann''
   \<and> length (leaderboard tieState) = 50
   \<and> length (leaderboard (snd (handleSaveWin instantCompare ''new'' tieDate tieState))) \<le> 50"
  using recordWin_capped [of tieState 2 instantCompare "''new''" tieDate]
  by (simp add: tieState_fields trim_Ann length_fiftyTies)

text \<open>
  \<^bold>\<open>C9.\<close> When a win is waiting and the name typed is empty or white space only,
  \<open>handleSaveWin\<close> changes nothing of the state, hands nothing to the storage, and shows
  the alert that a name is required.
\<close>

theorem empty_name_rejected:
  assumes "pendingWinAttempts st = Some w" and "list_all isWhiteSpace (playerName st)"
  shows "handleSaveWin lc newId nowISO st =
           ([Alert ''Name required'' ''Please enter your name to save your score.''], st)"
  using assms(1) trim_blank [OF assms(2)] by (simp add: handleSaveWin_def Let_def)

theorem empty_name_rejected_witness:
  "list_all isWhiteSpace '' ''
   \<and> handleSaveWin instantCompare ''new'' tieDate (tieState\<lparr>playerName := '' ''\<rparr>) =
       ([Alert ''Name required'' ''Please enter your name to save your score.''],
        tieState\<lparr>playerName := '' ''\<rparr>)
   \<and> leaderboard (snd (handleSaveWin instantCompare ''new'' tieDate
                          (tieState\<lparr>playerName := '' ''\<rparr>)))
       = fiftyTies"
proof -
  have blank: "list_all isWhiteSpace '' ''" by (simp add: isWhiteSpace_def)
  have "pendingWinAttempts (tieState\<lparr>playerName := '' ''\<rparr>) = Some 2"
    by (simp add: tieState_fields)
  with blank
  have "handleSaveWin instantCompare ''new'' tieDate (tieState\<lparr>playerName := '' ''\<rparr>) =
       ([Alert ''Name required'' ''Please enter your name to save your score.''],
        tieState\<lparr>playerName := '' ''\<rparr>)"
    using empty_name_rejected
      [of "tieState\<lparr>playerName := '' ''\<rparr>" 2 instantCompare "''new''" tieDate]
    by simp
  with blank show ?thesis by (simp add: tieState_fields)
qed

text \<open>
  \<^bold>\<open>C10, as amended.\<close> Timestamps have the shape that \<open>toISOString\<close> prints, and the
  collation orders them by their instant. When a win is saved, the new entry stands in
  the sorted list right after the leading entries that rank above it, none of which
  shares its rank, and the leaderboard is the first 50 of that list. So when the
  leaderboard holds 50 entries or more and each of them ranks above the new entry, the
  leaderboard after is the first 50 of the old entries in rank order and does not hold
  the new entry: the win saved is not listed. And when fewer than 50 of the old entries
  rank above the new entry, the new entry is listed.
\<close>

theorem outranked_win_dropped:
  assumes "collatesTimestamps lc" and "isoTimestamp nowISO"
    and "list_all (\<lambda>e. isoTimestamp (dateISO_e e)) (leaderboard st)"
    and "pendingWinAttempts st = Some w" and "trim (playerName st) \<noteq> []"
  shows
  "leaderboard (snd (handleSaveWin lc newId nowISO st))
     = take 50
         (takeWhile (\<lambda>e. spec_ranks_above e (savedEntry newId nowISO w st))
            (sortLeaderboard lc (leaderboard st))
          @ savedEntry newId nowISO w st
          # dropWhile (\<lambda>e. spec_ranks_above e (savedEntry newId nowISO w st))
              (sortLeaderboard lc (leaderboard st)))
   \<and> (50 \<le> length (leaderboard st)
       \<and> list_all (\<lambda>e. spec_ranks_above e (savedEntry newId nowISO w st)) (leaderboard st)
       \<longrightarrow> savedEntry newId nowISO w st
             \<notin> set (leaderboard (snd (handleSaveWin lc newId nowISO st)))
           \<and> leaderboard (snd (handleSaveWin lc newId nowISO st))
               = take 50 (sortLeaderboard lc (leaderboard st)))
   \<and> (length (filter (\<lambda>e. spec_ranks_above e (savedEntry newId nowISO w st)) (leaderboard st))
         < 50
       \<longrightarrow> savedEntry newId nowISO w st
             \<in> set (leaderboard (snd (handleSaveWin lc newId nowISO st))))"
proof -
  let ?entry = "savedEntry newId nowISO w st"
  let ?above = "\<lambda>e. spec_ranks_above e ?entry"
  let ?s = "sortLeaderboard lc (leaderboard st)"
  let ?after = "leaderboard (snd (handleSaveWin lc newId nowISO st))"
  have iso: "isoTimestamp (dateISO_e ?entry)"
    using assms(2) by (simp add: savedEntry_def)
  have split: "?after = take 50 (takeWhile ?above ?s @ ?entry # dropWhile ?above ?s)"
    by (simp add: handleSaveWin_saved [OF assms(4,5)]
        sortLeaderboard_split [OF assms(1) iso assms(3)])
  have dropped: "?entry \<notin> set ?after \<and> ?after = take 50 ?s"
    if len: "50 \<le> length (leaderboard st)" and all: "list_all ?above (leaderboard st)"
  proof -
    have above: "\<forall>e\<in>set ?s. ?above e"
      using all by (simp add: sortLeaderboard_def set_Array_sort list_all_iff)
    then have tw: "takeWhile ?above ?s = ?s" by simp
    from above have dw: "dropWhile ?above ?s = []" by simp
    have "50 \<le> length ?s"
      using len by (simp add: sortLeaderboard_def length_Array_sort)
    then have eq: "?after = take 50 ?s"
      by (simp add: split tw dw)
    have "?entry \<notin> set ?s"
      using above spec_ranks_above_irrefl [of ?entry] by blast
    then have "?entry \<notin> set (take 50 ?s)"
      using in_set_takeD by fast
    with eq show ?thesis by simp
  qed
  have kept: "?entry \<in> set ?after"
    if few: "length (filter ?above (leaderboard st)) < 50"
  proof -
    have "length (takeWhile ?above ?s) \<le> length (filter ?above ?s)"
      by (rule length_takeWhile_le_filter)
    also have "\<dots> = length (filter ?above (leaderboard st))"
      by (rule length_filter_sortLeaderboard)
    finally have "length (takeWhile ?above ?s) < 50" using few by simp
    then have "?entry \<in> set (take 50 (takeWhile ?above ?s @ ?entry # dropWhile ?above ?s))"
      by (simp add: take_Cons')
    then show ?thesis by (simp only: split)
  qed
  from split dropped kept show ?thesis by blast
qed

theorem outranked_win_dropped_witness:
  "collatesTimestamps instantCompare \<and> isoTimestamp tieDate
   \<and> pendingWinAttempts (tieState\<lparr>difficultyKey := Hard\<rparr>) = Some 2
   \<and> length (leaderboard (tieState\<lparr>difficultyKey := Hard\<rparr>)) = 50
   \<and> savedEntry ''new'' tieDate 2 (tieState\<lparr>difficultyKey := Hard\<rparr>)
       = \<lparr>id_e = ''new'', playerName_e = ''Ann'', difficulty_e = Hard, attempts_e = 2,
          rangeMax_e = 100, dateISO_e = tieDate\<rparr>
   \<and> savedEntry ''new'' tieDate 2 (tieState\<lparr>difficultyKey := Hard\<rparr>)
       \<notin> set (leaderboard (snd (handleSaveWin instantCompare ''new'' tieDate
                                   (tieState\<lparr>difficultyKey := Hard\<rparr>))))
   \<and> leaderboard (snd (handleSaveWin instantCompare ''new'' tieDate
                          (tieState\<lparr>difficultyKey := Hard\<rparr>)))
       = take 50 (sortLeaderboard instantCompare fiftyTies)"
proof -
  let ?st = "tieState\<lparr>difficultyKey := Hard\<rparr>"
  have f: "pendingWinAttempts ?st = Some 2" "playerName ?st = ''Ann''"
    "leaderboard ?st = fiftyTies" "difficulty ?st = findDifficulty Hard"
    by (simp_all add: tieState_def initialState_def difficulty_def)
  have entry: "savedEntry ''new'' tieDate 2 ?st
       = \<lparr>id_e = ''new'', playerName_e = ''Ann'', difficulty_e = Hard, attempts_e = 2,
          rangeMax_e = 100, dateISO_e = tieDate\<rparr>"
    by (simp add: savedEntry_def f trim_Ann findDifficulty_simps)
  have above: "list_all (\<lambda>e. spec_ranks_above e (savedEntry ''new'' tieDate 2 ?st))
                 (leaderboard ?st)"
    using fiftyTies_keys
    by (auto simp add: entry f list_all_iff spec_ranks_above_def spec_easier_def)
  have isos: "list_all (\<lambda>e. isoTimestamp (dateISO_e e)) (leaderboard ?st)"
    using iso_fiftyTies by (simp add: f)
  have name: "trim (playerName ?st) \<noteq> []" by (simp add: f trim_Ann)
  have len: "50 \<le> length (leaderboard ?st)" by (simp add: f length_fiftyTies)
  note T = outranked_win_dropped [OF collatesTimestamps_instantCompare isoTimestamp_tieDate
      isos f(1) name, of "''new''"]
  from T [THEN conjunct2, THEN conjunct1] len above
  have r: "savedEntry ''new'' tieDate 2 ?st
          \<notin> set (leaderboard (snd (handleSaveWin instantCompare ''new'' tieDate ?st)))
        \<and> leaderboard (snd (handleSaveWin instantCompare ''new'' tieDate ?st))
            = take 50 (sortLeaderboard instantCompare (leaderboard ?st))"
    by blast
  have 1: "leaderboard (snd (handleSaveWin instantCompare ''new'' tieDate ?st))
            = take 50 (sortLeaderboard instantCompare fiftyTies)"
    using r [THEN conjunct2] by (simp only: f)
  have 2: "length (leaderboard ?st) = 50" by (simp add: f length_fiftyTies)
  from r [THEN conjunct1] 1 2 f(1) entry collatesTimestamps_instantCompare isoTimestamp_tieDate
  show ?thesis by blast
qed

text \<open>
  As stated, C10 fails on ties: fifty entries that all share the rank of the new entry
  rank at it, yet the new entry, which the sort meets first, stays before them and is
  listed first. The timestamps are one and the same string, on which a collation gives 0.
\<close>

theorem tied_win_kept:
  "length (leaderboard tieState) = 50
   \<and> list_all (\<lambda>e. spec_ranks_at_or_above e tieNew) (leaderboard tieState)
   \<and> pendingWinAttempts tieState = Some 2
   \<and> trim (playerName tieState) = ''Ann''
   \<and> instantCompare tieDate tieDate = 0
   \<and> leaderboard (snd (handleSaveWin instantCompare ''new'' tieDate tieState))
       = tieNew # take 49 (sortLeaderboard instantCompare fiftyTies)
   \<and> tieNew \<in> set (leaderboard (snd (handleSaveWin instantCompare ''new'' tieDate tieState)))"
proof -
  have same: "\<forall>e\<in>set fiftyTies. spec_same_rank e tieNew"
    using fiftyTies_keys by (auto simp add: spec_same_rank_def tieNew_def)
  then have at: "list_all (\<lambda>e. spec_ranks_at_or_above e tieNew) (leaderboard tieState)"
    by (simp add: tieState_fields list_all_iff spec_ranks_at_or_above_def)
  have zero: "instantCompare tieDate tieDate = 0" by (simp add: instantCompare_def)
  have "\<forall>e\<in>set (Array_sort (compareEntries instantCompare) fiftyTies).
          compareEntries instantCompare tieNew e \<le> 0"
    using fiftyTies_keys zero
    by (auto simp add: set_Array_sort compareEntries_def tieNew_def)
  then have "sortLeaderboard instantCompare (tieNew # fiftyTies)
               = tieNew # sortLeaderboard instantCompare fiftyTies"
    by (simp add: sortLeaderboard_def Array_sort_Cons insert_by_first)
  then have "leaderboard (snd (handleSaveWin instantCompare ''new'' tieDate tieState))
       = tieNew # take 49 (sortLeaderboard instantCompare fiftyTies)"
    by (simp add: handleSaveWin_def tieState_fields trim_Ann findDifficulty_simps
        tieNew_def [symmetric] Let_def)
  with at zero show ?thesis
    by (simp add: tieState_fields trim_Ann length_fiftyTies)
qed

subsection \<open>Rounding of the integers from \<open>2 ^ 1024\<close> on\<close>


lemma bitLength_nonneg: "0 \<le> bitLength n"
proof (induction n rule: bitLength.induct)
  case (1 n)
  then show ?case by (subst bitLength.simps) simp
qed

lemma bitLength_lower: "0 < n \<Longrightarrow> 2 ^ nat (bitLength n - 1) \<le> n"
proof (induction n rule: bitLength.induct)
  case (1 n)
  show ?case
  proof (cases "n div 2 \<le> 0")
    case True
    with "1.prems" have "n = 1" by linarith
    then show ?thesis by (simp add: bitLength_one)
  next
    case False
    then have half: "0 < n div 2" by simp
    with "1.prems" "1.IH" have ih: "2 ^ nat (bitLength (n div 2) - 1) \<le> n div 2" by simp
    have pos: "1 \<le> bitLength (n div 2)"
      using half bitLength_nonneg [of "n div 2 div 2"] by (subst bitLength.simps) simp
    have "bitLength n = 1 + bitLength (n div 2)"
      using "1.prems" by (subst bitLength.simps) simp
    then have "nat (bitLength n - 1) = Suc (nat (bitLength (n div 2) - 1))"
      using pos by simp
    then have "(2::int) ^ nat (bitLength n - 1) = 2 * 2 ^ nat (bitLength (n div 2) - 1)"
      by simp
    also have "\<dots> \<le> 2 * (n div 2)" using ih by simp
    also have "\<dots> \<le> n" by simp
    finally show ?thesis .
  qed
qed

lemma bitLength_upper: "n < 2 ^ nat (bitLength n)"
proof (induction n rule: bitLength.induct)
  case (1 n)
  show ?case
  proof (cases "n \<le> 0")
    case True
    then have "n < 1" by simp
    also have "(1::int) \<le> 2 ^ nat (bitLength n)" by simp
    finally show ?thesis .
  next
    case False
    with "1.IH" have ih: "n div 2 < 2 ^ nat (bitLength (n div 2))" by simp
    have "bitLength n = 1 + bitLength (n div 2)"
      using False by (subst bitLength.simps) simp
    then have "nat (bitLength n) = Suc (nat (bitLength (n div 2)))"
      using bitLength_nonneg [of "n div 2"] by simp
    then have "(2::int) ^ nat (bitLength n) = 2 * 2 ^ nat (bitLength (n div 2))" by simp
    moreover have "n < 2 * (n div 2 + 1)" by simp
    moreover have "2 * (n div 2 + 1) \<le> 2 * 2 ^ nat (bitLength (n div 2))" using ih by simp
    ultimately show ?thesis by linarith
  qed
qed

lemma floorLog2_of_int:
  assumes "0 < n"
  shows "floorLog2 (of_int n) = bitLength n - 1"
proof -
  have "1 \<le> bitLength n"
    using assms bitLength_nonneg [of "n div 2"] by (subst bitLength.simps) simp
  then have "pow2 (bitLength n - 1) = of_int (2 ^ nat (bitLength n - 1))"
    by (simp add: pow2_def)
  also have "\<dots> \<le> of_int n"
    using bitLength_lower [OF assms] by (simp only: of_int_le_iff)
  finally show ?thesis
    by (simp add: floorLog2_def bitLength_one Let_def)
qed

lemma roundHalfEven_ge_floor: "\<lfloor>x\<rfloor> \<le> roundHalfEven x"
  by (simp add: roundHalfEven_def Let_def)

lemma nearestDouble_huge:
  assumes "2 ^ 1024 \<le> n"
  shows "2 ^ 1024 \<le> nearestDouble (of_int n)"
proof -
  have pos: "0 < n"
  proof -
    have "(0::int) < 2 ^ 1024" by simp
    with assms show ?thesis by linarith
  qed
  define e where "e = bitLength n - 1"
  have "1024 < nat (bitLength n)"
  proof (rule power_less_imp_less_exp)
    show "(1::int) < 2" by simp
    show "(2::int) ^ 1024 < 2 ^ nat (bitLength n)"
      using assms bitLength_upper [of n] by linarith
  qed
  then have e: "1024 \<le> e" by (simp add: e_def)
  define p where "p = e - 52"
  have p: "0 \<le> p" using e by (simp add: p_def)
  have ep: "nat e = 52 + nat p" using e by (simp add: p_def)
  have fl: "floorLog2 (of_int n) = e"
    using floorLog2_of_int [OF pos] by (simp add: e_def)
  have nd: "nearestDouble (of_int n)
              = of_int (roundHalfEven (of_int n / 2 ^ nat p)) * 2 ^ nat p"
    using e p by (simp add: nearestDouble_def fl pow2_def p_def Let_def)
  have "(2::int) ^ nat e \<le> n"
    using bitLength_lower [OF pos] by (simp add: e_def)
  then have "(of_int (2 ^ nat e) :: rat) \<le> of_int n" by (simp only: of_int_le_iff)
  then have "(2::rat) ^ 52 * 2 ^ nat p \<le> of_int n"
    by (simp add: ep power_add)
  then have "(2::rat) ^ 52 \<le> of_int n / 2 ^ nat p"
    by (simp add: pos_le_divide_eq)
  then have "(of_int (2 ^ 52) :: rat) \<le> of_int n / 2 ^ nat p" by simp
  then have "(2::int) ^ 52 \<le> \<lfloor>(of_int n :: rat) / 2 ^ nat p\<rfloor>"
    by (simp only: le_floor_iff)
  then have "(2::int) ^ 52 \<le> roundHalfEven (of_int n / 2 ^ nat p)"
    using roundHalfEven_ge_floor [of "of_int n / 2 ^ nat p"] by linarith
  then have "(of_int (2 ^ 52) :: rat) \<le> of_int (roundHalfEven (of_int n / 2 ^ nat p))"
    by (simp only: of_int_le_iff)
  then have "(2::rat) ^ 52 * 2 ^ nat p
               \<le> of_int (roundHalfEven (of_int n / 2 ^ nat p)) * 2 ^ nat p"
    by (simp add: mult_right_mono)
  then have "(2::rat) ^ nat e \<le> nearestDouble (of_int n)"
    by (simp add: nd ep power_add)
  moreover have "(2::rat) ^ 1024 \<le> 2 ^ nat e"
    using e by (intro power_increasing) simp_all
  ultimately show ?thesis by linarith
qed

lemma roundMV_huge:
  assumes "2 ^ 1024 \<le> n"
  shows "roundMV (of_int n) = PosInfinity"
proof -
  have "(0::int) < 2 ^ 1024" by simp
  with assms have "0 < n" by linarith
  then show ?thesis
    using nearestDouble_huge [OF assms] by (simp add: roundMV_def Let_def)
qed


lemma parseGuess_huge_digits:
  assumes "ds \<noteq> []" and "list_all isDigit ds" and "2 ^ 1024 \<le> digitsValue 10 ds"
  shows "parseGuess ds = None"
  using assms(1)
  by (simp add: parseGuess_def trim_digits [OF assms(1,2)] Number_digits [OF assms(1,2)]
      roundMV_huge [OF assms(3)] Number_isFinite_def Let_def)

lemma foldl_zeros:
  "foldl (\<lambda>acc c. 10 * acc + digitValue c) a (replicate k (CHR ''0'')) = a * 10 ^ k"
  by (induction k arbitrary: a) (simp_all add: digitValue_def)

lemma digitsValue_hugeGuess: "digitsValue 10 hugeGuess = 10 ^ 309"
  by (simp add: digitsValue_def hugeGuess_def foldl_zeros) (simp add: digitValue_def)

lemma isDigit_hugeGuess: "hugeGuess \<noteq> [] \<and> list_all isDigit hugeGuess"
  by (simp add: hugeGuess_def list_all_iff isDigit_def)

lemma parseGuess_hugeGuess: "parseGuess hugeGuess = None"
proof (rule parseGuess_huge_digits)
  show "hugeGuess \<noteq> []" "list_all isDigit hugeGuess"
    using isDigit_hugeGuess by simp_all
  show "2 ^ 1024 \<le> digitsValue 10 hugeGuess"
    by (simp add: digitsValue_hugeGuess)
qed

text \<open>
  \<^bold>\<open>C5, as amended.\<close> \<open>parseGuess\<close> rejects a text exactly when the trimmed text is
  empty or \<open>Number\<close> of it is not a finite integer. A non-empty string of decimal digits
  of a value below \<open>2 ^ 53\<close>, with any white space around it, is accepted with its value;
  one of a value from \<open>2 ^ 1024\<close> on is rejected. In a round that is not over, a text that
  \<open>parseGuess\<close> rejects sets the hint asking for a whole number and changes nothing else.
\<close>

theorem parseGuess_accepts:
  "(parseGuess text = None \<longleftrightarrow>
      trim text = [] \<or> \<not> Number_isFinite (Number (trim text))
      \<or> \<not> Number_isInteger (Number (trim text)))
   \<and> (ds \<noteq> [] \<and> list_all isDigit ds \<and> digitsValue 10 ds < 2 ^ 53
       \<and> list_all isWhiteSpace w1 \<and> list_all isWhiteSpace w2
       \<longrightarrow> parseGuess (w1 @ ds @ w2) = Some (digitsValue 10 ds))
   \<and> (ds' \<noteq> [] \<and> list_all isDigit ds' \<and> 2 ^ 1024 \<le> digitsValue 10 ds'
       \<longrightarrow> parseGuess ds' = None)
   \<and> (\<not> gameOver st \<and> parseGuess (guessText st) = None
       \<longrightarrow> handleSubmitGuess st = (InvalidInput, st\<lparr>hint := ''Please enter a whole number.''\<rparr>))"
proof -
  have a: "parseGuess text = None \<longleftrightarrow>
      trim text = [] \<or> \<not> Number_isFinite (Number (trim text))
      \<or> \<not> Number_isInteger (Number (trim text))"
    by (simp add: parseGuess_def Number_isFinite_def Let_def split: JSNumber.splits)
  have b: "\<not> gameOver st \<and> parseGuess (guessText st) = None
       \<longrightarrow> handleSubmitGuess st = (InvalidInput, st\<lparr>hint := ''Please enter a whole number.''\<rparr>)"
    by (simp add: handleSubmitGuess_def)
  show ?thesis
    using a b parseGuess_digits [of ds w1 w2] parseGuess_huge_digits [of ds'] by blast
qed

theorem parseGuess_accepts_witness:
  "parseGuess ''abc'' = None
   \<and> parseGuess '' 7 '' = Some 7
   \<and> parseGuess hugeGuess = None
   \<and> handleSubmitGuess (exampleRound\<lparr>attempts := 2, guessText := ''abc''\<rparr>)
       = (InvalidInput,
          exampleRound\<lparr>attempts := 2, guessText := ''abc'',
                       hint := ''Please enter a whole number.''\<rparr>)"
proof -
  note T = parseGuess_accepts [of "''abc''" "''7''" "'' ''" "'' ''" hugeGuess
      "exampleRound\<lparr>attempts := 2, guessText := ''abc''\<rparr>"]
  have "Number (trim ''abc'') = NaN"
    by (simp add: Number_def trim_def isWhiteSpace_def decimalLiteral_def unsignedDecimal_def
        isDigit_def Let_def)
  with T [THEN conjunct1] have 1: "parseGuess ''abc'' = None"
    by (simp add: Number_isFinite_def)
  have "digitsValue 10 ''7'' = 7"
    by (simp add: digitsValue_def digitValue_def)
  with T [THEN conjunct2, THEN conjunct1] have 2: "parseGuess '' 7 '' = Some 7"
    by (simp add: isDigit_def isWhiteSpace_def)
  have "(2::int) ^ 1024 \<le> digitsValue 10 hugeGuess"
    by (simp add: digitsValue_hugeGuess)
  with T [THEN conjunct2, THEN conjunct2, THEN conjunct1] isDigit_hugeGuess
  have 3: "parseGuess hugeGuess = None" by blast
  from T [THEN conjunct2, THEN conjunct2, THEN conjunct2] 1
  have 4: "handleSubmitGuess (exampleRound\<lparr>attempts := 2, guessText := ''abc''\<rparr>)
       = (InvalidInput,
          exampleRound\<lparr>attempts := 2, guessText := ''abc'',
                       hint := ''Please enter a whole number.''\<rparr>)"
    by (simp add: exampleRound_fields)
  from 1 2 3 4 show ?thesis by blast
qed

text \<open>
  As stated, C5 fails both ways: \<open>0x10\<close> is no base-10 integer representation, yet it is
  accepted as 16 and, when 16 is the target, wins the round; the digits of \<open>10 ^ 309\<close>
  are one, and the input box keeps them as typed, yet they are rejected, since their
  number is infinite.
\<close>

theorem parseGuess_not_base10:
  "\<not> spec_base10_integer (trim ''0x10'')
   \<and> parseGuess ''0x10'' = Some 16
   \<and> fst (submitGuess ''0x10'' (startNewGame Easy 16 (initialState 3))) = Won 1
   \<and> attempts (snd (submitGuess ''0x10'' (startNewGame Easy 16 (initialState 3)))) = 1
   \<and> spec_base10_integer (trim hugeGuess)
   \<and> guessText (onChangeText hugeGuess (initialState 3)) = hugeGuess
   \<and> parseGuess hugeGuess = None"
proof -
  have 4: "guessText (onChangeText hugeGuess (initialState 3)) = hugeGuess"
    using isDigit_hugeGuess by (simp add: onChangeText_def list_all_iff)
  have 1: "\<not> spec_base10_integer (trim ''0x10'')"
    by (simp add: trim_def isWhiteSpace_def spec_base10_integer_def isDigit_def)
  have 2: "fst (submitGuess ''0x10'' (startNewGame Easy 16 (initialState 3))) = Won 1
           \<and> attempts (snd (submitGuess ''0x10'' (startNewGame Easy 16 (initialState 3)))) = 1"
    by (simp add: submitGuess_def handleSubmitGuess_def parseGuess_hex startNewGame_def
        initialState_def difficulty_def findDifficulty_simps Let_def)
  have "trim hugeGuess = hugeGuess"
    using isDigit_hugeGuess by (simp add: trim_digits)
  then have 3: "spec_base10_integer (trim hugeGuess)"
    using isDigit_hugeGuess by (simp add: spec_base10_integer_def hugeGuess_def)
  from 1 2 3 4 parseGuess_hex parseGuess_hugeGuess show ?thesis by blast
qed

subsection \<open>Loading\<close>

text \<open>
  The paths of the startup load that discard: the leaderboard stays as it was when the
  read fails, when nothing or the empty string is stored, when the stored string does not
  parse, and when it parses to a value that is not an array.
\<close>

lemma load_discards:
  "raw = ReadFailed \<or> raw = ReadNull \<or> raw = ReadString [] \<or> parsed = None
     \<or> (\<exists>v. parsed = Some v \<and> \<not> Array_isArray v)
   \<Longrightarrow> loadLeaderboard raw parsed current = current"
  by (auto simp add: loadLeaderboard_def Array_isArray_def
      split: StorageRead.splits option.splits)

text \<open>
  \<^bold>\<open>C7.\<close> The claim has every stored value of another shape discarded and the
  leaderboard left empty. The load keeps a stored array whose elements are no entries:
  from \<open>[1]\<close> and from \<open>[null]\<close> the leaderboard becomes the array parsed, where the
  stored object \<open>{}\<close> is discarded.
\<close>

theorem load_keeps_misshapen_array:
  "\<not> spec_compatible_shape (JArr [JNum 1])
   \<and> loadLeaderboard (ReadString ''[1]'') (Some (JArr [JNum 1])) initialLeaderboard = [JNum 1]
   \<and> \<not> spec_compatible_shape (JArr [JNull])
   \<and> loadLeaderboard (ReadString ''[null]'') (Some (JArr [JNull])) initialLeaderboard = [JNull]
   \<and> \<not> spec_compatible_shape (JObj [])
   \<and> loadLeaderboard (ReadString ''{}'') (Some (JObj [])) initialLeaderboard = []"
  by (simp add: spec_compatible_shape_def spec_entry_shape_def loadLeaderboard_def
      Array_isArray_def elements_def initialLeaderboard_def)

end
